theory Spec2Isabelle
  imports
    Main
    "HOL-Library.Sublist"
    "HOL-Library.List_Lexorder"
    "HOL-Library.Product_Lexorder"
    "HOL-Library.Multiset"
begin

text \<open>
  A shallow embedding of the repository import of BugBuddy: the GitHub service with its two
  entry points, \<open>fetchGithubRepo\<close> and \<open>GitHubService.analyzeGitHubRepo\<close>, and the builder
  of the file tree, \<open>buildFileTree\<close>. The network and the JavaScript runtime are inputs of
  the model: what each request answers and what the built-in string functions return is
  given, and the functions compute what the code does with it. Progress messages and log
  output are left out; waiting times are kept where the retry loop produces them.
\<close>

section \<open>Strings and the runtime\<close>

text \<open>
  A JavaScript string is a sequence of UTF-16 code units, and \<open>s.length\<close> is the number of
  its code units. A code unit is a number (below 65536 in every string of the runtime; the
  code never computes with code units). \<open>cu c\<close> is the code unit of an ASCII character and
  \<open>js s\<close> the string that a literal of the source denotes.
\<close>

type_synonym codeunit = nat

type_synonym jsstring = "codeunit list"

definition cu :: "char \<Rightarrow> codeunit" where
  "cu c = of_char c"

definition js :: "string \<Rightarrow> jsstring" where
  "js s = map cu s"

text \<open>
  Two functions that the code calls belong to the runtime and not to the repository:
  \<open>String.prototype.toLowerCase\<close>, which maps through the Unicode case tables and can
  change the length of a string, and \<open>String.prototype.localeCompare\<close>, whose order is
  the collation of the locale of the host. Both are inputs of the model.
\<close>

record runtime =
  toLowerCase :: "jsstring \<Rightarrow> jsstring"
  localeCompare :: "jsstring \<Rightarrow> jsstring \<Rightarrow> int"

text \<open>\<open>s.lastIndexOf(c)\<close>: the index of the last occurrence, or \<open>-1\<close>.\<close>

definition lastIndexOf :: "jsstring \<Rightarrow> codeunit \<Rightarrow> int" where
  "lastIndexOf s c =
     (if c \<in> set s then int (length s - 1 - length (takeWhile (\<lambda>x. x \<noteq> c) (rev s))) else - 1)"

text \<open>\<open>s.substring(i)\<close>: a negative start is clamped to \<open>0\<close>.\<close>

definition substring :: "jsstring \<Rightarrow> int \<Rightarrow> jsstring" where
  "substring s i = drop (nat (max 0 i)) s"

text \<open>\<open>s.split('/')\<close>: never empty; \<open>''.split('/')\<close> is \<open>['']\<close>.\<close>

fun split :: "codeunit \<Rightarrow> jsstring \<Rightarrow> jsstring list" where
  "split sep [] = [[]]"
| "split sep (c # cs) =
     (if c = sep then [] # split sep cs
      else (case split sep cs of p # ps \<Rightarrow> (c # p) # ps | [] \<Rightarrow> [[c]]))"

text \<open>\<open>parts.join('/')\<close>.\<close>

fun join :: "codeunit \<Rightarrow> jsstring list \<Rightarrow> jsstring" where
  "join sep [] = []"
| "join sep [p] = p"
| "join sep (p # q # ps) = p @ sep # join sep (q # ps)"

text \<open>\<open>s.replace(pat, '')\<close> with a string pattern: the first occurrence is removed.\<close>

fun removeFirst :: "jsstring \<Rightarrow> jsstring \<Rightarrow> jsstring" where
  "removeFirst pat [] = []"
| "removeFirst pat (c # cs) =
     (if prefix pat (c # cs) then drop (length pat) (c # cs) else c # removeFirst pat cs)"

text \<open>\<open>s.replace(/\/$/, '')\<close>: one trailing slash is removed.\<close>

definition removeTrailingSlash :: "jsstring \<Rightarrow> jsstring" where
  "removeTrailingSlash s = (if s \<noteq> [] \<and> last s = cu CHR ''/'' then butlast s else s)"

text \<open>Decimal rendering of a number inside a template literal.\<close>

definition digitChar :: "nat \<Rightarrow> codeunit" where
  "digitChar d = js ''0123456789'' ! d"

function showNat :: "nat \<Rightarrow> jsstring" where
  "showNat n = (if n < 10 then [digitChar n] else showNat (n div 10) @ [digitChar (n mod 10)])"
  by pat_completeness auto
termination
  by (relation "measure (\<lambda>n. n)") auto

declare showNat.simps [simp del]

section \<open>The GitHub service: limits, filters and data\<close>

definition MAX_FILES :: nat where
  "MAX_FILES = 1000"

definition MAX_TOTAL_SIZE_MB :: nat where
  "MAX_TOTAL_SIZE_MB = 100"

definition MAX_TOTAL_SIZE_BYTES :: nat where
  "MAX_TOTAL_SIZE_BYTES = MAX_TOTAL_SIZE_MB * 1024 * 1024"

definition MAX_FILE_SIZE_BYTES :: nat where
  "MAX_FILE_SIZE_BYTES = 1024 * 1024"

definition SUPPORTED_EXTENSIONS :: "jsstring list" where
  "SUPPORTED_EXTENSIONS =
     map js
       [''.java'', ''.xml'', ''.gradle'', ''.properties'', ''.sql'', ''.jsp'',
        ''.yaml'', ''.yml'', ''.json'', ''.ts'', ''.tsx'', ''.js'', ''.css'', ''.html'', ''.md'',
        ''.py'', ''.cpp'', ''.c'', ''.h'', ''.php'', ''.rb'', ''.go'', ''.rs'', ''.kt'', ''.scala'']"

text \<open>
  The regular expressions of \<open>IGNORED_PATTERNS\<close> are all of three shapes: a literal found
  anywhere (\<open>/node_modules/\<close>; \<open>/\.env.*/\<close>, whose \<open>.*\<close> also matches nothing), a literal
  at the end (\<open>/\.(log|tmp|cache)$/\<close>, one entry per alternative) and a literal at the
  start (\<open>/^\.git\//\<close>). None has a flag, so a literal matches code unit by code unit.
\<close>

datatype pattern = Anywhere jsstring | AtEnd jsstring | AtStart jsstring

fun contains :: "jsstring \<Rightarrow> jsstring \<Rightarrow> bool" where
  "contains [] lit = (lit = [])"
| "contains (c # cs) lit = (prefix lit (c # cs) \<or> contains cs lit)"

fun test :: "pattern \<Rightarrow> jsstring \<Rightarrow> bool" where
  "test (Anywhere lit) s = contains s lit"
| "test (AtEnd lit) s = prefix (rev lit) (rev s)"
| "test (AtStart lit) s = prefix lit s"

definition IGNORED_PATTERNS :: "pattern list" where
  "IGNORED_PATTERNS =
     [Anywhere (js ''node_modules''),
      Anywhere (js ''.env''),
      Anywhere (js ''.env.production''),
      Anywhere (js ''.env.development''),
      AtEnd (js ''.log''), AtEnd (js ''.tmp''), AtEnd (js ''.cache''),
      AtStart (js ''node_modules/''),
      AtStart (js ''.git/''),
      AtStart (js ''.vscode/''),
      AtStart (js ''target/''),
      AtStart (js ''build/''),
      AtStart (js ''dist/''),
      AtStart (js ''.next/''),
      AtStart (js ''.nuxt/'')]"

datatype item_type = Blob | Tree

record GitHubTreeItem =
  path :: jsstring
  mode :: jsstring
  type :: item_type
  sha :: jsstring
  item_size :: "nat option"
  url :: jsstring

text \<open>
  The \<open>language\<close> of a file is what \<open>languageMap[ext]\<close> gives: the string of an own key of
  the table, or, for a key that the table does not have and \<open>Object.prototype\<close> has, the
  member of that name that the table inherits (a function or an object, not a string).
\<close>

datatype language_value = LanguageName jsstring | PrototypeMember jsstring

record ProjectFile =
  file_path :: jsstring
  content :: jsstring
  language :: "language_value option"
  file_size :: nat

definition shouldIgnoreFile :: "jsstring \<Rightarrow> bool" where
  "shouldIgnoreFile p = list_ex (\<lambda>pat. test pat p) IGNORED_PATTERNS"

text \<open>
  \<open>filename.toLowerCase().substring(filename.lastIndexOf('.'))\<close>: the index is taken in
  the file name as given, the cut is made in the lower-cased file name.
\<close>

definition extensionOf :: "runtime \<Rightarrow> jsstring \<Rightarrow> jsstring" where
  "extensionOf rt filename =
     substring (toLowerCase rt filename) (lastIndexOf filename (cu CHR ''.''))"

definition isSupportedFile :: "runtime \<Rightarrow> jsstring \<Rightarrow> bool" where
  "isSupportedFile rt filename = (extensionOf rt filename \<in> set SUPPORTED_EXTENSIONS)"

definition languageMap :: "(jsstring \<times> jsstring) list" where
  "languageMap =
     map (\<lambda>(ext, lang). (js ext, js lang))
       [(''.js'', ''javascript''), (''.jsx'', ''javascript''), (''.ts'', ''typescript''),
        (''.tsx'', ''typescript''), (''.py'', ''python''), (''.java'', ''java''),
        (''.cpp'', ''cpp''), (''.c'', ''c''), (''.h'', ''c''), (''.php'', ''php''),
        (''.rb'', ''ruby''), (''.go'', ''go''), (''.rs'', ''rust''), (''.kt'', ''kotlin''),
        (''.scala'', ''scala''), (''.xml'', ''xml''), (''.json'', ''json''), (''.yaml'', ''yaml''),
        (''.yml'', ''yaml''), (''.md'', ''markdown''), (''.html'', ''html''), (''.css'', ''css''),
        (''.sql'', ''sql''), (''.gradle'', ''gradle''), (''.properties'', ''properties''),
        (''.jsp'', ''jsp'')]"

text \<open>The names that every plain object inherits from \<open>Object.prototype\<close>.\<close>

definition objectPrototypeKeys :: "jsstring list" where
  "objectPrototypeKeys =
     map js
       [''constructor'', ''__defineGetter__'', ''__defineSetter__'', ''hasOwnProperty'',
        ''__lookupGetter__'', ''__lookupSetter__'', ''isPrototypeOf'', ''propertyIsEnumerable'',
        ''toString'', ''valueOf'', ''__proto__'', ''toLocaleString'']"

definition detectLanguage :: "runtime \<Rightarrow> jsstring \<Rightarrow> language_value option" where
  "detectLanguage rt filename =
     (let ext = extensionOf rt filename
      in case map_of languageMap ext of
           Some lang \<Rightarrow> Some (LanguageName lang)
         | None \<Rightarrow> if ext \<in> set objectPrototypeKeys then Some (PrototypeMember ext) else None)"

text \<open>\<open>(item.size || 0)\<close>: a missing size counts as \<open>0\<close>.\<close>

definition sizeOrZero :: "GitHubTreeItem \<Rightarrow> nat" where
  "sizeOrZero item = (case item_size item of None \<Rightarrow> 0 | Some n \<Rightarrow> n)"

text \<open>Step 4 of \<open>fetchGithubRepo\<close>: the chain of filters, in the order of the source.\<close>

definition allBlobs :: "GitHubTreeItem list \<Rightarrow> GitHubTreeItem list" where
  "allBlobs tree = filter (\<lambda>item. type item = Blob) tree"

definition relevantItems :: "runtime \<Rightarrow> GitHubTreeItem list \<Rightarrow> GitHubTreeItem list" where
  "relevantItems rt tree =
     filter (\<lambda>item. sizeOrZero item < MAX_FILE_SIZE_BYTES)
       (filter (\<lambda>item. isSupportedFile rt (path item))
         (filter (\<lambda>item. \<not> shouldIgnoreFile (path item)) (allBlobs tree)))"

text \<open>\<open>xs.slice(i, j)\<close> for \<open>0 \<le> i \<le> j\<close>.\<close>

definition slice :: "'a list \<Rightarrow> nat \<Rightarrow> nat \<Rightarrow> 'a list" where
  "slice xs i j = take (j - i) (drop i xs)"

definition limitedItems :: "runtime \<Rightarrow> GitHubTreeItem list \<Rightarrow> GitHubTreeItem list" where
  "limitedItems rt tree = slice (relevantItems rt tree) 0 MAX_FILES"

section \<open>The network as one run sees it\<close>

text \<open>
  A run reads the network through \<open>fetch\<close> and \<open>githubService.getFileContent\<close>. Their
  answers are the input of the model: the response to the repository request and to the
  tree request (\<open>None\<close> when \<open>fetch\<close> itself rejects), and for every path and attempt
  number the outcome of \<open>getFileContent\<close> (\<open>None\<close> when it throws).
\<close>

record http_response =
  status :: nat
  statusText :: jsstring
  ratelimit_remaining :: "jsstring option"

text \<open>\<open>response.ok\<close>: the status is in the range 200 to 299.\<close>

definition ok :: "http_response \<Rightarrow> bool" where
  "ok res = (200 \<le> status res \<and> status res \<le> 299)"

record repo_data =
  repo_private :: bool
  default_branch :: "jsstring option"

record tree_data =
  tree_truncated :: bool
  tree :: "GitHubTreeItem list option"

record network =
  repoRes :: "(http_response \<times> repo_data) option"
  treeRes :: "(http_response \<times> tree_data) option"
  getFileContent :: "jsstring \<Rightarrow> nat \<Rightarrow> jsstring option"

text \<open>
  Every \<open>throw new Error(...)\<close> of \<open>fetchGithubRepo\<close>, with the data its message shows:
  \<^item> \<open>InvalidRepositoryFormat\<close>: ``Invalid repository format. Use 'owner/repo' or full URL.'';
  \<^item> \<open>FetchRejected\<close>: \<open>fetch\<close> itself rejected, and its error goes to the caller;
  \<^item> \<open>RepositoryNotFound\<close>: ``Repository not found: owner/repo'';
  \<^item> \<open>Unauthorized\<close>: ``Unauthorized. Check your token.'';
  \<^item> \<open>RateLimitExceeded\<close>: ``GitHub API rate limit exceeded. ...'';
  \<^item> \<open>AccessDenied\<close>: ``Access denied. Repository may be private ...'';
  \<^item> \<open>GitHubApiError\<close>: ``GitHub API Error: statusText'';
  \<^item> \<open>PrivateRepository\<close>: ``Repository owner/repo is private. ...'';
  \<^item> \<open>ReferenceNotFound\<close>: ``Branch or tag 'ref' not found.'';
  \<^item> \<open>RepositoryEmpty_409\<close>: ``Repository is empty or uninitialized.'';
  \<^item> \<open>TreeFetchFailed\<close>: ``Failed to fetch file tree: status statusText'';
  \<^item> \<open>RepositoryEmpty_no_entries\<close>: ``Repository owner/repo appears to be empty or has
    no commits.'';
  \<^item> \<open>NoMatchingFiles\<close>: ``No matching source files found in 'ref'. ...''.
\<close>

datatype import_error =
    InvalidRepositoryFormat
  | FetchRejected
  | RepositoryNotFound jsstring jsstring
  | Unauthorized
  | RateLimitExceeded
  | AccessDenied
  | GitHubApiError jsstring
  | PrivateRepository jsstring jsstring
  | ReferenceNotFound jsstring
  | RepositoryEmpty_409
  | TreeFetchFailed nat jsstring
  | RepositoryEmpty_no_entries jsstring jsstring
  | NoMatchingFiles jsstring

record RepoImportResult =
  files :: "ProjectFile list"
  summary :: jsstring
  truncated :: bool

section \<open>fetchGithubRepo\<close>

text \<open>Step 1: \<open>owner\<close> and \<open>repo\<close> from \<open>owner/repo\<close> or the full URL.\<close>

definition parseRepoString :: "jsstring \<Rightarrow> (jsstring \<times> jsstring) option" where
  "parseRepoString repoString =
     (let clean = removeTrailingSlash (removeFirst (js ''https://github.com/'') repoString);
          parts = split (cu CHR ''/'') clean
      in if length parts \<ge> 2 then Some (parts ! 0, parts ! 1) else None)"

text \<open>A token is used when it is given and not the empty string.\<close>

definition truthy :: "jsstring option \<Rightarrow> bool" where
  "truthy t = (case t of None \<Rightarrow> False | Some s \<Rightarrow> s \<noteq> [])"

text \<open>Step 2: the reference to import; the default branch when none is given.\<close>

definition resolveRef ::
  "network \<Rightarrow> jsstring \<Rightarrow> jsstring \<Rightarrow> jsstring \<Rightarrow> jsstring option \<Rightarrow> import_error + jsstring" where
  "resolveRef net owner repo branch token =
     (if branch \<noteq> [] then Inr branch
      else case repoRes net of
        None \<Rightarrow> Inl FetchRejected
      | Some (res, repoData) \<Rightarrow>
          if \<not> ok res then
            (if status res = 404 then Inl (RepositoryNotFound owner repo)
             else if status res = 401 then Inl Unauthorized
             else if status res = 403 then
               (if ratelimit_remaining res = Some (js ''0'') then Inl RateLimitExceeded
                else Inl AccessDenied)
             else Inl (GitHubApiError (statusText res)))
          else if repo_private repoData \<and> \<not> truthy token then Inl (PrivateRepository owner repo)
          else Inr (case default_branch repoData of
                      None \<Rightarrow> js ''main''
                    | Some b \<Rightarrow> if b \<noteq> [] then b else js ''main''))"

text \<open>Step 3: the recursive tree of the reference.\<close>

definition fetchTree ::
  "network \<Rightarrow> jsstring \<Rightarrow> jsstring \<Rightarrow> jsstring \<Rightarrow> import_error + tree_data" where
  "fetchTree net owner repo targetRef =
     (case treeRes net of
        None \<Rightarrow> Inl FetchRejected
      | Some (res, treeData) \<Rightarrow>
          if \<not> ok res then
            (if status res = 404 then Inl (ReferenceNotFound targetRef)
             else if status res = 409 then Inl RepositoryEmpty_409
             else if status res = 403 then
               (if ratelimit_remaining res = Some (js ''0'') then Inl RateLimitExceeded
                else Inl AccessDenied)
             else Inl (TreeFetchFailed (status res) (statusText res)))
          else Inr treeData)"

text \<open>
  Step 5. \<open>fetchFileWithRetry\<close> returns the file or \<open>null\<close>; the model also returns the
  delays, in milliseconds, that the loop waited between attempts.
\<close>

function retryLoop ::
  "runtime \<Rightarrow> (jsstring \<Rightarrow> nat \<Rightarrow> jsstring option) \<Rightarrow> GitHubTreeItem \<Rightarrow> nat \<Rightarrow> nat
     \<Rightarrow> ProjectFile option \<times> nat list" where
  "retryLoop rt gfc item retries attempt =
     (if attempt < retries then
        (case gfc (path item) attempt of
           Some c \<Rightarrow>
             (Some \<lparr>file_path = path item, content = c,
                    language = detectLanguage rt (path item), file_size = length c\<rparr>, [])
         | None \<Rightarrow>
             if attempt = retries - 1 then (None, [])
             else (let (r, delays) = retryLoop rt gfc item retries (attempt + 1)
                   in (r, 2 ^ attempt * 1000 # delays)))
      else (None, []))"
  by pat_completeness auto
termination
  by (relation "measure (\<lambda>(rt, gfc, item, retries, attempt). retries - attempt)") auto

declare retryLoop.simps [simp del]

definition fetchFileWithRetry ::
  "runtime \<Rightarrow> (jsstring \<Rightarrow> nat \<Rightarrow> jsstring option) \<Rightarrow> GitHubTreeItem
     \<Rightarrow> ProjectFile option \<times> nat list" where
  "fetchFileWithRetry rt gfc item = retryLoop rt gfc item 3 0"

definition BATCH_SIZE :: nat where
  "BATCH_SIZE = 3"

record download_state =
  dl_files :: "ProjectFile list"
  downloadedCount :: nat
  failedCount :: nat

text \<open>The body of \<open>results.forEach\<close>.\<close>

definition collect :: "download_state \<Rightarrow> ProjectFile option \<Rightarrow> download_state" where
  "collect st r =
     (case r of
        Some f \<Rightarrow> st\<lparr>dl_files := dl_files st @ [f], downloadedCount := downloadedCount st + 1\<rparr>
      | None \<Rightarrow> st\<lparr>failedCount := failedCount st + 1\<rparr>)"

text \<open>
  The batch loop. \<open>Promise.all\<close> returns the results of a batch in the order of the batch,
  whatever the order in which the requests finish.
\<close>

function downloadBatches ::
  "runtime \<Rightarrow> (jsstring \<Rightarrow> nat \<Rightarrow> jsstring option) \<Rightarrow> GitHubTreeItem list \<Rightarrow> nat
     \<Rightarrow> download_state \<Rightarrow> download_state" where
  "downloadBatches rt gfc items i st =
     (if i < length items then
        (let batch = slice items i (i + BATCH_SIZE);
             results = map (\<lambda>item. fst (fetchFileWithRetry rt gfc item)) batch
         in downloadBatches rt gfc items (i + BATCH_SIZE) (foldl collect st results))
      else st)"
  by pat_completeness auto
termination
  by (relation "measure (\<lambda>(rt, gfc, items, i, st). length items - i)")
     (auto simp: BATCH_SIZE_def)

declare downloadBatches.simps [simp del]

definition downloadAll ::
  "runtime \<Rightarrow> (jsstring \<Rightarrow> nat \<Rightarrow> jsstring option) \<Rightarrow> GitHubTreeItem list \<Rightarrow> download_state" where
  "downloadAll rt gfc items =
     downloadBatches rt gfc items 0 \<lparr>dl_files = [], downloadedCount = 0, failedCount = 0\<rparr>"

definition skippedNote :: "bool \<Rightarrow> jsstring" where
  "skippedNote isTruncated =
     (if isTruncated then js ''(Some files skipped due to size/limits)'' else [])"

definition makeSummary :: "nat \<Rightarrow> jsstring \<Rightarrow> nat \<Rightarrow> bool \<Rightarrow> jsstring" where
  "makeSummary n targetRef failed isTruncated =
     (if failed > 0 then
        js ''Imported '' @ showNat n @ js '' files from '' @ targetRef @ js '' (''
          @ showNat failed @ js '' failed). '' @ skippedNote isTruncated
      else js ''Imported '' @ showNat n @ js '' files from '' @ targetRef @ js ''. ''
          @ skippedNote isTruncated)"

text \<open>Steps 4 and 5 on the entries of the tree that step 3 returned.\<close>

definition importTree ::
  "runtime \<Rightarrow> (jsstring \<Rightarrow> nat \<Rightarrow> jsstring option) \<Rightarrow> jsstring \<Rightarrow> bool \<Rightarrow> GitHubTreeItem list
     \<Rightarrow> import_error + RepoImportResult" where
  "importTree rt gfc targetRef apiTruncated entries =
     (let isTruncated = (apiTruncated
                          \<or> length (limitedItems rt entries) < length (relevantItems rt entries))
      in if limitedItems rt entries = [] then Inl (NoMatchingFiles targetRef)
         else (let st = downloadAll rt gfc (limitedItems rt entries)
               in Inr \<lparr>files = dl_files st,
                       summary = makeSummary (length (dl_files st)) targetRef (failedCount st)
                                   isTruncated,
                       truncated = (isTruncated \<or> failedCount st > 0)\<rparr>))"

definition fetchGithubRepo ::
  "runtime \<Rightarrow> network \<Rightarrow> jsstring \<Rightarrow> jsstring \<Rightarrow> jsstring option
     \<Rightarrow> import_error + RepoImportResult" where
  "fetchGithubRepo rt net repoString branch token =
     (case parseRepoString repoString of
        None \<Rightarrow> Inl InvalidRepositoryFormat
      | Some (owner, repo) \<Rightarrow>
          (case resolveRef net owner repo branch token of
             Inl e \<Rightarrow> Inl e
           | Inr targetRef \<Rightarrow>
               (case fetchTree net owner repo targetRef of
                  Inl e \<Rightarrow> Inl e
                | Inr treeData \<Rightarrow>
                    (case tree treeData of
                       None \<Rightarrow> Inl (RepositoryEmpty_no_entries owner repo)
                     | Some entries \<Rightarrow>
                         if entries = [] then Inl (RepositoryEmpty_no_entries owner repo)
                         else importTree rt (getFileContent net) targetRef
                                (tree_truncated treeData) entries))))"

section \<open>GitHubService.analyzeGitHubRepo\<close>

text \<open>
  The second entry point goes through \<open>this.request\<close> for the repository data; the model
  takes the outcome of the anonymous call and of the retry with authentication as input,
  together with the tree response and, for every candidate, the decoded content of its blob
  (\<open>None\<close> when \<open>fetch\<close> rejects, the response is not ok or decoding throws).
  The errors of \<open>request\<close> are its rate-limit error, ``Authentication required. ...''
  (401), ``Access denied. ...'' (403), ``Repository not found. ...'' (404),
  ``GitHub API error: status statusText'' and a rejected \<open>fetch\<close>.
\<close>

datatype request_error =
    RequestRateLimited
  | AuthenticationRequired
  | RequestAccessDenied
  | RequestNotFound
  | RequestApiError nat jsstring
  | RequestRejected

datatype analysis_error =
    RequestFailed request_error
  | BranchNotFound jsstring
  | RepositoryIsEmpty
  | FileTreeFailed nat jsstring
  | TreeFetchRejected
  | TreeMissing
  | NoMatchingSourceFiles jsstring

record analysis_network =
  repoInfo :: "request_error + repo_data"
  repoInfoAuth :: "request_error + repo_data"
  analysis_treeRes :: "(http_response \<times> tree_data) option"
  blobContent :: "GitHubTreeItem \<Rightarrow> jsstring option"

record analysis_state =
  an_files :: "ProjectFile list"
  totalSize :: nat
  supportedFiles :: nat
  an_downloadedCount :: nat

record CodebaseAnalysis =
  ca_files :: "ProjectFile list"
  ca_totalSize :: nat
  ca_supportedFiles :: nat
  ca_ignoredFiles :: "jsstring list"

definition defaultBranchOrMain :: "repo_data \<Rightarrow> jsstring" where
  "defaultBranchOrMain repoData =
     (case default_branch repoData of
        None \<Rightarrow> js ''main''
      | Some b \<Rightarrow> if b \<noteq> [] then b else js ''main'')"

text \<open>
  \<open>error.message.includes('Authentication required')\<close>: the message of the 401 error
  has the words, and so has the generic message when the status text has them.
\<close>

definition mentionsAuthenticationRequired :: "request_error \<Rightarrow> bool" where
  "mentionsAuthenticationRequired e =
     (case e of
        AuthenticationRequired \<Rightarrow> True
      | RequestApiError st txt \<Rightarrow>
          contains (js ''GitHub API error: '' @ showNat st @ js '' '' @ txt)
            (js ''Authentication required'')
      | _ \<Rightarrow> False)"

text \<open>
  Step 1: the reference is always the default branch of the repository; the \<open>branch\<close>
  argument is overwritten before it is read.
\<close>

definition analysisRef :: "analysis_network \<Rightarrow> analysis_error + jsstring" where
  "analysisRef net =
     (case repoInfo net of
        Inr repoData \<Rightarrow> Inr (defaultBranchOrMain repoData)
      | Inl e \<Rightarrow>
          if mentionsAuthenticationRequired e then
            (case repoInfoAuth net of
               Inr repoData \<Rightarrow> Inr (defaultBranchOrMain repoData)
             | Inl e' \<Rightarrow> Inl (RequestFailed e'))
          else Inl (RequestFailed e))"

text \<open>\<open>xs.slice(0, e)\<close> for any integer \<open>e\<close>: a negative end counts from the end.\<close>

definition sliceTo :: "'a list \<Rightarrow> int \<Rightarrow> 'a list" where
  "sliceTo xs e = (if e < 0 then take (nat (int (length xs) + e)) xs else take (nat e) xs)"

definition BATCH_SIZE_analyze :: nat where
  "BATCH_SIZE_analyze = 5"

text \<open>
  The body of \<open>batch.map\<close>. Every request of a batch reads \<open>totalSize\<close> before
  \<open>results.forEach\<close> of that batch has run, so all of them see the total at the start of
  the batch.
\<close>

definition fetchWithinBudget ::
  "runtime \<Rightarrow> (GitHubTreeItem \<Rightarrow> jsstring option) \<Rightarrow> nat \<Rightarrow> GitHubTreeItem
     \<Rightarrow> ProjectFile option" where
  "fetchWithinBudget rt blob seenTotal item =
     (if seenTotal \<ge> MAX_TOTAL_SIZE_BYTES then None
      else case blob item of
        None \<Rightarrow> None
      | Some c \<Rightarrow>
          if seenTotal + length c > MAX_TOTAL_SIZE_BYTES then None
          else Some \<lparr>file_path = path item, content = c,
                     language = detectLanguage rt (path item), file_size = length c\<rparr>)"

definition commit :: "analysis_state \<Rightarrow> ProjectFile option \<Rightarrow> analysis_state" where
  "commit st r =
     (case r of
        Some f \<Rightarrow> st\<lparr>an_files := an_files st @ [f],
                     totalSize := totalSize st + length (content f),
                     supportedFiles := supportedFiles st + 1,
                     an_downloadedCount := an_downloadedCount st + 1\<rparr>
      | None \<Rightarrow> st)"

function analyzeBatches ::
  "runtime \<Rightarrow> (GitHubTreeItem \<Rightarrow> jsstring option) \<Rightarrow> GitHubTreeItem list \<Rightarrow> nat
     \<Rightarrow> analysis_state \<Rightarrow> analysis_state" where
  "analyzeBatches rt blob items i st =
     (if i < length items then
        (if totalSize st \<ge> MAX_TOTAL_SIZE_BYTES then st
         else (let batch = slice items i (i + BATCH_SIZE_analyze);
                   results = map (fetchWithinBudget rt blob (totalSize st)) batch
               in analyzeBatches rt blob items (i + BATCH_SIZE_analyze)
                    (foldl commit st results)))
      else st)"
  by pat_completeness auto
termination
  by (relation "measure (\<lambda>(rt, blob, items, i, st). length items - i)")
     (auto simp: BATCH_SIZE_analyze_def)

declare analyzeBatches.simps [simp del]

definition analyzeGitHubRepo ::
  "runtime \<Rightarrow> analysis_network \<Rightarrow> jsstring \<Rightarrow> jsstring \<Rightarrow> jsstring \<Rightarrow> int
     \<Rightarrow> analysis_error + CodebaseAnalysis" where
  "analyzeGitHubRepo rt net owner repo branch maxFiles =
     (case analysisRef net of
        Inl e \<Rightarrow> Inl e
      | Inr targetRef \<Rightarrow>
          (case analysis_treeRes net of
             None \<Rightarrow> Inl TreeFetchRejected
           | Some (res, treeData) \<Rightarrow>
               if \<not> ok res then
                 (if status res = 404 then Inl (BranchNotFound targetRef)
                  else if status res = 409 then Inl RepositoryIsEmpty
                  else Inl (FileTreeFailed (status res) (statusText res)))
               else (case tree treeData of
                       None \<Rightarrow> Inl TreeMissing
                     | Some entries \<Rightarrow>
                         (let limited = sliceTo (relevantItems rt entries)
                                          (min maxFiles (int MAX_FILES))
                          in if limited = [] then Inl (NoMatchingSourceFiles targetRef)
                             else (let st = analyzeBatches rt (blobContent net) limited 0
                                              \<lparr>an_files = [], totalSize = 0, supportedFiles = 0,
                                               an_downloadedCount = 0\<rparr>
                                   in Inr \<lparr>ca_files = an_files st,
                                           ca_totalSize = totalSize st,
                                           ca_supportedFiles = supportedFiles st,
                                           ca_ignoredFiles = []\<rparr>)))))"

section \<open>The file tree\<close>

record CodebaseFile =
  cf_path :: jsstring
  cf_content :: jsstring
  cf_size :: nat
  cf_language :: "jsstring option"

text \<open>
  \<open>buildFileTree\<close> creates nodes of two shapes only: file nodes, with size, language and
  \<open>isSupported\<close> and no children, and directory nodes, with a children array and nothing
  else.
\<close>

datatype FileTreeNode =
    FileNode (name: jsstring) (node_path: jsstring) (node_size: nat)
      (node_language: "jsstring option") (isSupported: bool)
  | DirectoryNode (name: jsstring) (node_path: jsstring) (children: "FileTreeNode list")

fun isDirectory :: "FileTreeNode \<Rightarrow> bool" where
  "isDirectory (DirectoryNode nm p ch) = True"
| "isDirectory (FileNode nm p sz lang supp) = False"

text \<open>
  \<open>existingNode\<close> is the first node of the level with the name, and the source changes
  its children in place: the model puts the changed node where the first match is.
\<close>

fun updateFirst :: "('a \<Rightarrow> bool) \<Rightarrow> 'a \<Rightarrow> 'a list \<Rightarrow> 'a list" where
  "updateFirst P y [] = []"
| "updateFirst P y (x # xs) = (if P x then y # xs else x # updateFirst P y xs)"

text \<open>
  The inner loop of \<open>buildFileTree\<close> for one file: \<open>seen\<close> are the parts before index
  \<open>i\<close>, \<open>part # rest\<close> the parts from \<open>i\<close> on, \<open>level\<close> is \<open>currentLevel\<close>. The result is
  \<open>currentLevel\<close> after the loop. When the node found is a file, or the part is the last
  one, the loop goes on in the same level.
\<close>

fun insertFile ::
  "CodebaseFile \<Rightarrow> jsstring list \<Rightarrow> jsstring list \<Rightarrow> FileTreeNode list \<Rightarrow> FileTreeNode list" where
  "insertFile file seen [] level = level"
| "insertFile file seen (part # rest) level =
     (case find (\<lambda>node. name node = part) level of
        None \<Rightarrow>
          if rest = [] then
            level @ [FileNode part (cf_path file) (cf_size file) (cf_language file) True]
          else
            level @ [DirectoryNode part (join (cu CHR ''/'') (seen @ [part]))
                       (insertFile file (seen @ [part]) rest [])]
      | Some existingNode \<Rightarrow>
          if rest \<noteq> [] \<and> isDirectory existingNode then
            updateFirst (\<lambda>node. name node = part)
              (DirectoryNode (name existingNode) (node_path existingNode)
                 (insertFile file (seen @ [part]) rest (children existingNode)))
              level
          else insertFile file (seen @ [part]) rest level)"

definition addFile :: "FileTreeNode list \<Rightarrow> CodebaseFile \<Rightarrow> FileTreeNode list" where
  "addFile root file = insertFile file [] (split (cu CHR ''/'') (cf_path file)) root"

text \<open>
  The comparator of \<open>sortNodes\<close>: a directory before a file, and two nodes of one kind as
  \<open>a.name.localeCompare(b.name)\<close> says.
\<close>

definition compareNodes :: "runtime \<Rightarrow> FileTreeNode \<Rightarrow> FileTreeNode \<Rightarrow> int" where
  "compareNodes rt a b =
     (if isDirectory a \<noteq> isDirectory b then (if isDirectory a then - 1 else 1)
      else localeCompare rt (name a) (name b))"

text \<open>
  \<open>[...nodes].sort(compare)\<close>. \<open>Array.prototype.sort\<close> is stable: elements that the
  comparator rates equal keep the order they had. For a consistent comparator that leaves
  one result, and the insertion sort computes it: an element goes in front of the first
  element of the sorted rest that does not have to come before it. (With a comparator that
  is not consistent the order that \<open>sort\<close> returns is left to the implementation.)
\<close>

fun insertOrdered :: "('a \<Rightarrow> 'a \<Rightarrow> int) \<Rightarrow> 'a \<Rightarrow> 'a list \<Rightarrow> 'a list" where
  "insertOrdered compare x [] = [x]"
| "insertOrdered compare x (y # ys) =
     (if compare x y \<le> 0 then x # y # ys else y # insertOrdered compare x ys)"

definition sortArray :: "('a \<Rightarrow> 'a \<Rightarrow> int) \<Rightarrow> 'a list \<Rightarrow> 'a list" where
  "sortArray compare xs = foldr (insertOrdered compare) xs []"

function sortNodes :: "runtime \<Rightarrow> FileTreeNode list \<Rightarrow> FileTreeNode list" where
  "sortNodes rt nodes =
     map (\<lambda>node. case node of
                   DirectoryNode nm p ch \<Rightarrow> DirectoryNode nm p (sortNodes rt ch)
                 | FileNode nm p sz lang supp \<Rightarrow> node)
       (sortArray (compareNodes rt) nodes)"
  by pat_completeness auto
termination
proof (relation "measure (\<lambda>(rt, nodes). size_list size nodes)", goal_cases)
  case 1
  show ?case by simp
next
  case (2 rt nodes node nm p ch)
  have ins: "set (insertOrdered c x ys) = insert x (set ys)"
    for c :: "FileTreeNode \<Rightarrow> FileTreeNode \<Rightarrow> int" and x ys
    by (induction ys) auto
  have "set (sortArray c xs) = set xs" for c :: "FileTreeNode \<Rightarrow> FileTreeNode \<Rightarrow> int" and xs
    by (induction xs) (simp_all add: sortArray_def ins)
  with 2 have "node \<in> set nodes" by simp
  then have "size node \<le> size_list size nodes"
    by (simp add: size_list_estimation')
  with 2 show ?case by simp
qed

declare sortNodes.simps [simp del]

definition buildFileTree :: "runtime \<Rightarrow> CodebaseFile list \<Rightarrow> FileTreeNode list" where
  "buildFileTree rt fs = sortNodes rt (foldl addFile [] fs)"

section \<open>Notions used to state the properties\<close>

text \<open>An item whose three attempts all fail.\<close>

definition failsAllAttempts ::
  "(jsstring \<Rightarrow> nat \<Rightarrow> jsstring option) \<Rightarrow> GitHubTreeItem \<Rightarrow> bool" where
  "failsAllAttempts gfc item = list_all (\<lambda>a. gfc (path item) a = None) [0..<3]"

text \<open>
  The bytes of the files that the first \<open>i\<close> candidates gave. The byte budget is used up
  before all candidates were fetched when, in front of some candidate, the files fetched so
  far already hold \<open>MAX_TOTAL_SIZE_BYTES\<close> or more.
\<close>

definition bytesOfFirst ::
  "runtime \<Rightarrow> (jsstring \<Rightarrow> nat \<Rightarrow> jsstring option) \<Rightarrow> GitHubTreeItem list \<Rightarrow> nat \<Rightarrow> nat" where
  "bytesOfFirst rt gfc items i =
     sum_list (map file_size
       (List.map_filter (\<lambda>item. fst (fetchFileWithRetry rt gfc item)) (take i items)))"

definition budgetExhaustedEarly ::
  "runtime \<Rightarrow> (jsstring \<Rightarrow> nat \<Rightarrow> jsstring option) \<Rightarrow> GitHubTreeItem list \<Rightarrow> bool" where
  "budgetExhaustedEarly rt gfc items =
     list_ex (\<lambda>i. MAX_TOTAL_SIZE_BYTES \<le> bytesOfFirst rt gfc items i) [0..<length items]"

text \<open>
  The filter of the planner in the words of the specification: the text after the last dot,
  compared without regard to case; a reported size at or above the cap.
\<close>

definition textAfterLastDot :: "jsstring \<Rightarrow> jsstring option" where
  "textAfterLastDot p =
     (if cu CHR ''.'' \<in> set p
      then Some (rev (takeWhile (\<lambda>c. c \<noteq> cu CHR ''.'') (rev p))) else None)"

definition hasSupportedExtension :: "runtime \<Rightarrow> jsstring \<Rightarrow> bool" where
  "hasSupportedExtension rt p =
     (case textAfterLastDot p of
        None \<Rightarrow> False
      | Some e \<Rightarrow> cu CHR ''.'' # toLowerCase rt e \<in> set SUPPORTED_EXTENSIONS)"

definition sizeAtOrAboveCap :: "GitHubTreeItem \<Rightarrow> bool" where
  "sizeAtOrAboveCap item =
     (case item_size item of None \<Rightarrow> False | Some n \<Rightarrow> MAX_FILE_SIZE_BYTES \<le> n)"

definition keptByPlanner :: "runtime \<Rightarrow> GitHubTreeItem \<Rightarrow> bool" where
  "keptByPlanner rt item =
     (type item \<noteq> Tree \<and> \<not> shouldIgnoreFile (path item) \<and> hasSupportedExtension rt (path item)
      \<and> \<not> sizeAtOrAboveCap item)"

text \<open>The nodes of a tree: a node with all nodes below it, and the nodes below it.\<close>

fun subnodes :: "FileTreeNode \<Rightarrow> FileTreeNode list" where
  "subnodes (FileNode nm p sz lang supp) = [FileNode nm p sz lang supp]"
| "subnodes (DirectoryNode nm p ch) = DirectoryNode nm p ch # concat (map subnodes ch)"

fun descendants :: "FileTreeNode \<Rightarrow> FileTreeNode list" where
  "descendants (FileNode nm p sz lang supp) = []"
| "descendants (DirectoryNode nm p ch) = concat (map subnodes ch)"

definition allNodes :: "FileTreeNode list \<Rightarrow> FileTreeNode list" where
  "allNodes roots = concat (map subnodes roots)"

text \<open>A file is somewhere in the node; every directory of the node has a file below it.\<close>

fun hasFile :: "FileTreeNode \<Rightarrow> bool" where
  "hasFile (FileNode nm p sz lang supp) = True"
| "hasFile (DirectoryNode nm p ch) = (\<exists>c\<in>set ch. hasFile c)"

fun populated :: "FileTreeNode \<Rightarrow> bool" where
  "populated (FileNode nm p sz lang supp) = True"
| "populated (DirectoryNode nm p ch) = ((\<exists>c\<in>set ch. hasFile c) \<and> (\<forall>c\<in>set ch. populated c))"


text \<open>
  The order of the tree as the code makes it: a directory comes before a file, and of two
  nodes of the same kind the first is not after the second by \<open>localeCompare\<close>.
\<close>

definition orderedBefore :: "runtime \<Rightarrow> FileTreeNode \<Rightarrow> FileTreeNode \<Rightarrow> bool" where
  "orderedBefore rt a b =
     ((isDirectory a \<and> \<not> isDirectory b)
      \<or> (isDirectory a = isDirectory b \<and> localeCompare rt (name a) (name b) \<le> 0))"








text \<open>
  What a forest holds at a position: the node reached by following the names of the
  position, without its children.
\<close>

fun label :: "FileTreeNode \<Rightarrow> FileTreeNode" where
  "label (FileNode nm p sz lang supp) = FileNode nm p sz lang supp"
| "label (DirectoryNode nm p ch) = DirectoryNode nm p []"

fun lookup :: "FileTreeNode list \<Rightarrow> jsstring list \<Rightarrow> FileTreeNode option" where
  "lookup level [] = None"
| "lookup level (p # ps) =
     (case find (\<lambda>node. name node = p) level of
        None \<Rightarrow> None
      | Some node \<Rightarrow>
          if ps = [] then Some (label node)
          else if isDirectory node then lookup (children node) ps
          else None)"




text \<open>One node of \<open>sortNodes\<close>: the children of a directory sorted.\<close>

definition sortNode :: "runtime \<Rightarrow> FileTreeNode \<Rightarrow> FileTreeNode" where
  "sortNode rt node =
     (case node of
        DirectoryNode nm p ch \<Rightarrow> DirectoryNode nm p (sortNodes rt ch)
      | FileNode nm p sz lang supp \<Rightarrow> node)"

section \<open>Sample runs\<close>

text \<open>
  The runtime of the sample runs. Its \<open>toLowerCase\<close> maps the letters \<open>A\<close> to \<open>Z\<close> to
  \<open>a\<close> to \<open>z\<close> and the code unit U+0130, the capital I with a dot above, to the two code
  units U+0069 U+0307, as the Unicode case tables have it; every other code unit stays. Its
  \<open>localeCompare\<close> compares names without regard to case first and puts the lower-case
  letter first on a tie, as the root collation does, and it takes \<open>e\<close> followed by the
  combining acute accent U+0301 for the same as the composed letter U+00E9: the standard
  requires \<open>localeCompare\<close> to rate canonically equivalent strings equal. On the strings of
  the sample runs both return what the functions of a browser return.
\<close>

definition lowerUnit :: "codeunit \<Rightarrow> jsstring" where
  "lowerUnit u = (if 65 \<le> u \<and> u \<le> 90 then [u + 32] else if u = 304 then [105, 775] else [u])"

definition sampleToLowerCase :: "jsstring \<Rightarrow> jsstring" where
  "sampleToLowerCase s = concat (map lowerUnit s)"

fun composeAcute :: "jsstring \<Rightarrow> jsstring" where
  "composeAcute (a # b # s) =
     (if a = 101 \<and> b = 769 then 233 # composeAcute s else a # composeAcute (b # s))"
| "composeAcute s = s"

definition foldCase :: "codeunit \<Rightarrow> codeunit" where
  "foldCase u = (if 65 \<le> u \<and> u \<le> 90 then u + 32 else u)"

definition swapCase :: "codeunit \<Rightarrow> codeunit" where
  "swapCase u = (if 65 \<le> u \<and> u \<le> 90 then u + 32 else if 97 \<le> u \<and> u \<le> 122 then u - 32 else u)"

definition collationKey :: "jsstring \<Rightarrow> jsstring \<times> jsstring" where
  "collationKey s = (map foldCase (composeAcute s), map swapCase (composeAcute s))"

definition sampleLocaleCompare :: "jsstring \<Rightarrow> jsstring \<Rightarrow> int" where
  "sampleLocaleCompare a b =
     (if collationKey a < collationKey b then - 1
      else if collationKey a = collationKey b then 0 else 1)"

definition sampleRuntime :: runtime where
  "sampleRuntime = \<lparr>toLowerCase = sampleToLowerCase, localeCompare = sampleLocaleCompare\<rparr>"

definition okResponse :: http_response where
  "okResponse = \<lparr>status = 200, statusText = js ''OK'', ratelimit_remaining = None\<rparr>"

definition blobItem :: "jsstring \<Rightarrow> nat \<Rightarrow> GitHubTreeItem" where
  "blobItem p n =
     \<lparr>path = p, mode = js ''100644'', type = Blob, sha = js ''0'', item_size = Some n, url = p\<rparr>"

definition publicRepo :: repo_data where
  "publicRepo = \<lparr>repo_private = False, default_branch = Some (js ''main'')\<rparr>"

text \<open>
  A repository of five files. \<open>b.ts\<close> fails at every attempt, \<open>c.ts\<close> fails twice and then
  succeeds, the lock file is not a supported file.
\<close>

definition flakyTree :: "GitHubTreeItem list" where
  "flakyTree =
     [blobItem (js ''a.ts'') 3, blobItem (js ''b.ts'') 4, blobItem (js ''yarn.lock'') 5,
      blobItem (js ''c.ts'') 3, blobItem (js ''d.ts'') 3]"

definition flakyContent :: "jsstring \<Rightarrow> nat \<Rightarrow> jsstring option" where
  "flakyContent p attempt =
     (if p = js ''b.ts'' then None
      else if p = js ''c.ts'' \<and> attempt < 2 then None
      else Some (js ''abc''))"

definition flakyNet :: network where
  "flakyNet =
     \<lparr>repoRes = Some (okResponse, publicRepo),
      treeRes = Some (okResponse, \<lparr>tree_truncated = False, tree = Some flakyTree\<rparr>),
      getFileContent = flakyContent\<rparr>"

definition tsFile :: "jsstring \<Rightarrow> ProjectFile" where
  "tsFile p =
     \<lparr>file_path = p, content = js ''abc'', language = Some (LanguageName (js ''typescript'')),
      file_size = 3\<rparr>"

definition flakyResult :: RepoImportResult where
  "flakyResult =
     \<lparr>files = [tsFile (js ''a.ts''), tsFile (js ''c.ts''), tsFile (js ''d.ts'')],
      summary = js ''Imported 3 files from main (1 failed). '',
      truncated = True\<rparr>"

text \<open>A listing that the API cut short; its only file downloads at once.\<close>

definition apiTruncatedNet :: network where
  "apiTruncatedNet =
     \<lparr>repoRes = Some (okResponse, publicRepo),
      treeRes = Some (okResponse,
                  \<lparr>tree_truncated = True, tree = Some [blobItem (js ''a.ts'') 3]\<rparr>),
      getFileContent = (\<lambda>p attempt. Some (js ''abc''))\<rparr>"

definition apiTruncatedResult :: RepoImportResult where
  "apiTruncatedResult =
     \<lparr>files = [tsFile (js ''a.ts'')],
      summary = js ''Imported 1 files from main. (Some files skipped due to size/limits)'',
      truncated = True\<rparr>"



text \<open>A reference whose tree has no entries, and a tree request answered with 409.\<close>

definition emptyTreeNet :: network where
  "emptyTreeNet =
     \<lparr>repoRes = Some (okResponse, publicRepo),
      treeRes = Some (okResponse, \<lparr>tree_truncated = False, tree = Some []\<rparr>),
      getFileContent = (\<lambda>p attempt. None)\<rparr>"

definition conflictResponse :: http_response where
  "conflictResponse =
     \<lparr>status = 409, statusText = js ''Conflict'', ratelimit_remaining = None\<rparr>"

definition conflictNet :: network where
  "conflictNet =
     \<lparr>repoRes = Some (okResponse, publicRepo),
      treeRes = Some (conflictResponse, \<lparr>tree_truncated = False, tree = None\<rparr>),
      getFileContent = (\<lambda>p attempt. None)\<rparr>"

text \<open>Ten candidate files; \<open>c.ts\<close> and \<open>g.ts\<close> fail at every attempt.\<close>

definition tenTree :: "GitHubTreeItem list" where
  "tenTree = map (\<lambda>p. blobItem (js p) 3)
     [''a.ts'', ''b.ts'', ''c.ts'', ''d.ts'', ''e.ts'', ''f.ts'', ''g.ts'', ''h.ts'', ''i.ts'',
      ''j.ts'']"

definition tenContent :: "jsstring \<Rightarrow> nat \<Rightarrow> jsstring option" where
  "tenContent p attempt = (if p = js ''c.ts'' \<or> p = js ''g.ts'' then None else Some (js ''abc''))"

definition tenNet :: network where
  "tenNet =
     \<lparr>repoRes = Some (okResponse, publicRepo),
      treeRes = Some (okResponse, \<lparr>tree_truncated = False, tree = Some tenTree\<rparr>),
      getFileContent = tenContent\<rparr>"

text \<open>
  A listing that shows every step of the filter: a directory entry, a file whose name
  starts with the capital I with a dot above, a plain source file, a file under
  \<open>node_modules\<close>, a file with an upper-case extension, a file of exactly the size of the
  cap, and a file whose size the listing does not report.
\<close>

definition dottedCapitalPath :: jsstring where
  "dottedCapitalPath = 304 # js ''.ts''"

definition plannerTree :: "GitHubTreeItem list" where
  "plannerTree =
     [\<lparr>path = js ''lib.js'', mode = js ''040000'', type = Tree, sha = js ''0'',
       item_size = None, url = js ''lib.js''\<rparr>,
      blobItem dottedCapitalPath 3,
      blobItem (js ''a.ts'') 3,
      blobItem (js ''node_modules/x.ts'') 3,
      blobItem (js ''Main.JAVA'') 3,
      blobItem (js ''big.ts'') 1048576,
      \<lparr>path = js ''c.py'', mode = js ''100644'', type = Blob, sha = js ''0'',
       item_size = None, url = js ''c.py''\<rparr>]"

text \<open>
  A repository of 105 source files for \<open>analyzeGitHubRepo\<close>: one hundred files of
  1048575 bytes, just below the cap for one file, followed by five files of 60 bytes. Every
  blob has the size that the listing reports.
\<close>

definition bigContent :: jsstring where
  "bigContent = replicate 1048575 (cu CHR ''x'')"

definition smallContent :: jsstring where
  "smallContent = replicate 60 (cu CHR ''x'')"

definition sourceItem :: "nat \<Rightarrow> nat \<Rightarrow> GitHubTreeItem" where
  "sourceItem k n =
     \<lparr>path = js ''f'' @ showNat k @ js ''.ts'', mode = js ''100644'', type = Blob,
      sha = showNat k, item_size = Some n, url = js ''blobs/'' @ showNat k\<rparr>"

definition overshootBig :: "GitHubTreeItem list" where
  "overshootBig = map (\<lambda>k. sourceItem k 1048575) [0..<100]"

definition overshootSmall :: "GitHubTreeItem list" where
  "overshootSmall = map (\<lambda>k. sourceItem k 60) [100..<105]"

definition overshootTree :: "GitHubTreeItem list" where
  "overshootTree = overshootBig @ overshootSmall"

definition overshootNet :: analysis_network where
  "overshootNet =
     \<lparr>repoInfo = Inr publicRepo,
      repoInfoAuth = Inl RequestRejected,
      analysis_treeRes = Some (okResponse, \<lparr>tree_truncated = False, tree = Some overshootTree\<rparr>),
      blobContent = (\<lambda>item. if item_size item = Some 60 then Some smallContent
                             else Some bigContent)\<rparr>"

text \<open>
  A repository of 105 source files of 1048575 bytes each for \<open>fetchGithubRepo\<close>, 35
  batches of three; every download succeeds at the first attempt.
\<close>

definition heavyTree :: "GitHubTreeItem list" where
  "heavyTree = map (\<lambda>k. sourceItem k 1048575) [0..<105]"

definition heavyNet :: network where
  "heavyNet =
     \<lparr>repoRes = Some (okResponse, publicRepo),
      treeRes = Some (okResponse, \<lparr>tree_truncated = False, tree = Some heavyTree\<rparr>),
      getFileContent = (\<lambda>p attempt. Some bigContent)\<rparr>"

text \<open>
  Files for the tree builder: the paths of the scenario of the specification, a list with
  several directories and files at one level, and the two spellings of a name with an
  accented letter, with the composed letter U+00E9 and with \<open>e\<close> followed by the
  combining accent U+0301.
\<close>

definition codeFile :: "jsstring \<Rightarrow> CodebaseFile" where
  "codeFile p = \<lparr>cf_path = p, cf_content = js ''x'', cf_size = 1, cf_language = None\<rparr>"

definition treeFiles :: "CodebaseFile list" where
  "treeFiles =
     [codeFile (js ''a/b.txt''), codeFile (js ''a/c/d.txt''), codeFile (js ''e.txt'')]"




section \<open>Properties\<close>

subsection \<open>Code units of literals\<close>

lemma cu_eq_iff [simp]: "cu a = cu b \<longleftrightarrow> a = b"
  by (simp add: cu_def)

lemma js_Nil [simp]: "js [] = []"
  by (simp add: js_def)

lemma js_Cons: "js (c # s) = cu c # js s"
  by (simp add: js_def)

lemma js_eq_iff [simp]: "js a = js b \<longleftrightarrow> a = b"
  by (simp add: js_def inj_def)

lemma length_js [simp]: "length (js s) = length s"
  by (simp add: js_def)

subsection \<open>Retry and the batch loop\<close>

lemma failsAllAttempts_iff:
  "failsAllAttempts gfc item \<longleftrightarrow>
     gfc (path item) 0 = None \<and> gfc (path item) (Suc 0) = None \<and> gfc (path item) (Suc (Suc 0)) = None"
  by (auto simp: failsAllAttempts_def list_all_iff less_Suc_eq numeral_3_eq_3)

lemma fetchFileWithRetry_unfold:
  "fetchFileWithRetry rt gfc item =
     (case gfc (path item) 0 of
        Some c \<Rightarrow> (Some \<lparr>file_path = path item, content = c,
                    language = detectLanguage rt (path item), file_size = length c\<rparr>, [])
      | None \<Rightarrow>
          (case gfc (path item) (Suc 0) of
             Some c \<Rightarrow> (Some \<lparr>file_path = path item, content = c,
                    language = detectLanguage rt (path item), file_size = length c\<rparr>, [1000])
           | None \<Rightarrow>
               (case gfc (path item) (Suc (Suc 0)) of
                  Some c \<Rightarrow> (Some \<lparr>file_path = path item, content = c,
                    language = detectLanguage rt (path item), file_size = length c\<rparr>, [1000, 2000])
                | None \<Rightarrow> (None, [1000, 2000]))))"
  by (simp add: fetchFileWithRetry_def retryLoop.simps split: option.splits)

lemma retry_none_iff:
  "fst (fetchFileWithRetry rt gfc item) = None \<longleftrightarrow> failsAllAttempts gfc item"
  by (simp add: fetchFileWithRetry_unfold failsAllAttempts_iff split: option.splits)

lemma retry_all_fail:
  "failsAllAttempts gfc item \<Longrightarrow> fetchFileWithRetry rt gfc item = (None, [1000, 2000])"
  by (simp add: fetchFileWithRetry_unfold failsAllAttempts_iff)

lemma retry_some_path:
  "fst (fetchFileWithRetry rt gfc item) = Some f \<Longrightarrow>
     file_path f = path item \<and> file_size f = length (content f)"
  by (auto simp add: fetchFileWithRetry_unfold split: option.splits)

lemma map_filter_append: "List.map_filter f (xs @ ys) = List.map_filter f xs @ List.map_filter f ys"
  by (simp add: List.map_filter_def)

lemma foldl_collect_files:
  "dl_files (foldl collect st rs) = dl_files st @ List.map_filter id rs"
  by (induction rs arbitrary: st) (auto simp: collect_def split: option.splits)

lemma foldl_collect_failed:
  "failedCount (foldl collect st rs) = failedCount st + length (filter (\<lambda>r. r = None) rs)"
  by (induction rs arbitrary: st) (auto simp: collect_def split: option.splits)

lemma drop_batch: "drop i xs = slice xs i (i + n) @ drop (i + n) xs"
  by (simp add: slice_def add.commute[of i n] flip: drop_drop)

lemma map_filter_id_map: "List.map_filter id (map f xs) = List.map_filter f xs"
  by (induction xs) (auto simp: split: option.splits)

lemma downloadBatches_files:
  "dl_files (downloadBatches rt gfc items i st) =
     dl_files st @ List.map_filter (\<lambda>item. fst (fetchFileWithRetry rt gfc item)) (drop i items)"
proof (induction rt gfc items i st rule: downloadBatches.induct)
  case (1 rt gfc items i st)
  show ?case
  proof (cases "i < length items")
    case True
    have "drop i items = slice items i (i + BATCH_SIZE) @ drop (i + BATCH_SIZE) items"
      by (rule drop_batch)
    then show ?thesis
      using True "1.IH"[OF True refl refl]
      by (subst downloadBatches.simps)
         (simp add: Let_def foldl_collect_files map_filter_id_map map_filter_append)
  next
    case False
    then show ?thesis
      by (subst downloadBatches.simps) simp
  qed
qed

lemma downloadBatches_failed:
  "failedCount (downloadBatches rt gfc items i st) =
     failedCount st
     + length (filter (\<lambda>item. fst (fetchFileWithRetry rt gfc item) = None) (drop i items))"
proof (induction rt gfc items i st rule: downloadBatches.induct)
  case (1 rt gfc items i st)
  show ?case
  proof (cases "i < length items")
    case True
    have "drop i items = slice items i (i + BATCH_SIZE) @ drop (i + BATCH_SIZE) items"
      by (rule drop_batch)
    then show ?thesis
      using True "1.IH"[OF True refl refl]
      by (subst downloadBatches.simps) (simp add: Let_def foldl_collect_failed filter_map comp_def)
  next
    case False
    then show ?thesis
      by (subst downloadBatches.simps) simp
  qed
qed

lemma downloadAll_files:
  "dl_files (downloadAll rt gfc items) =
     List.map_filter (\<lambda>item. fst (fetchFileWithRetry rt gfc item)) items"
  by (simp add: downloadAll_def downloadBatches_files)

lemma downloadAll_failed:
  "failedCount (downloadAll rt gfc items) = length (filter (failsAllAttempts gfc) items)"
  by (simp add: downloadAll_def downloadBatches_failed retry_none_iff)

lemma length_map_filter_retry:
  "length (List.map_filter (\<lambda>item. fst (fetchFileWithRetry rt gfc item)) items)
     + length (filter (failsAllAttempts gfc) items) = length items"
  by (induction items)
     (auto simp: retry_none_iff[where rt = rt, symmetric]
        split: option.splits)

lemma map_filter_retry_paths:
  "map file_path (List.map_filter (\<lambda>item. fst (fetchFileWithRetry rt gfc item)) items)
     = map path (filter (\<lambda>item. \<not> failsAllAttempts gfc item) items)"
  by (induction items)
     (auto simp: retry_none_iff[where rt = rt, symmetric]
        dest: retry_some_path split: option.splits)

lemma importTree_Inr:
  assumes "importTree rt gfc targetRef apiTruncated entries = Inr r"
  shows "limitedItems rt entries \<noteq> []"
    and "files r = dl_files (downloadAll rt gfc (limitedItems rt entries))"
    and "truncated r \<longleftrightarrow> apiTruncated
           \<or> length (limitedItems rt entries) < length (relevantItems rt entries)
           \<or> 0 < failedCount (downloadAll rt gfc (limitedItems rt entries))"
  using assms by (auto simp: importTree_def Let_def split: if_splits)

lemma fetchGithubRepo_Inr:
  assumes "fetchGithubRepo rt net repoString branch token = Inr r"
    and "treeRes net = Some (res, treeData)" and "tree treeData = Some entries"
  shows "\<exists>targetRef.
           importTree rt (getFileContent net) targetRef (tree_truncated treeData) entries = Inr r"
  using assms
  by (auto simp: fetchGithubRepo_def fetchTree_def
        split: option.splits sum.splits if_splits prod.splits)

lemma fetchGithubRepo_run:
  assumes "parseRepoString repoString = Some (owner, repo)"
    and "resolveRef net owner repo branch token = Inr targetRef"
    and "treeRes net = Some (res, treeData)" and "ok res"
    and "tree treeData = Some entries"
    and "limitedItems rt entries \<noteq> []"
  shows "fetchGithubRepo rt net repoString branch token
           = importTree rt (getFileContent net) targetRef (tree_truncated treeData) entries"
proof -
  from assms(6) have ne: "entries \<noteq> []"
    by (auto simp: limitedItems_def slice_def relevantItems_def allBlobs_def)
  show ?thesis
    using assms ne by (simp add: fetchGithubRepo_def fetchTree_def)
qed

lemma length_limitedItems: "length (limitedItems rt entries) \<le> MAX_FILES"
  by (simp add: limitedItems_def slice_def)

lemma limited_shorter_iff:
  "length (limitedItems rt entries) < length (relevantItems rt entries)
     \<longleftrightarrow> MAX_FILES < length (relevantItems rt entries)"
  by (auto simp add: limitedItems_def slice_def)

lemma failed_pos_iff:
  "0 < failedCount (downloadAll rt gfc items) \<longleftrightarrow> (\<exists>item\<in>set items. failsAllAttempts gfc item)"
  by (auto simp: downloadAll_failed filter_empty_conv)

lemma retry_delays: "prefix (snd (fetchFileWithRetry rt gfc item)) [1000, 2000]"
  by (simp add: fetchFileWithRetry_unfold split: option.splits)

lemma fetchGithubRepo_InrE:
  assumes "fetchGithubRepo rt net repoString branch token = Inr r"
  obtains res treeData entries where
    "treeRes net = Some (res, treeData)" "tree treeData = Some entries"
proof -
  from assms have "\<exists>res treeData entries.
      treeRes net = Some (res, treeData) \<and> tree treeData = Some entries"
    by (auto simp: fetchGithubRepo_def fetchTree_def
          split: option.splits sum.splits if_splits prod.splits)
  then show ?thesis using that by blast
qed

subsection \<open>The sample runtime\<close>

lemma sample_toLowerCase [simp]: "toLowerCase sampleRuntime = sampleToLowerCase"
  by (simp add: sampleRuntime_def)


lemma sampleToLowerCase_fixed:
  "\<forall>u\<in>set s. lowerUnit u = [u] \<Longrightarrow> sampleToLowerCase s = s"
  by (induction s) (simp_all add: sampleToLowerCase_def)

lemma lastIndexOf_last: "c \<notin> set e \<Longrightarrow> lastIndexOf (s @ c # e) c = int (length s)"
proof -
  assume c: "c \<notin> set e"
  have "takeWhile (\<lambda>x. x \<noteq> c) (rev e @ c # rev s) = rev e @ takeWhile (\<lambda>x. x \<noteq> c) (c # rev s)"
    using c by (intro takeWhile_append2) auto
  then show ?thesis
    by (simp add: lastIndexOf_def)
qed

lemma extensionOf_fixed:
  assumes "toLowerCase rt (s @ cu CHR ''.'' # e) = s @ cu CHR ''.'' # e"
    and "cu CHR ''.'' \<notin> set e"
  shows "extensionOf rt (s @ cu CHR ''.'' # e) = cu CHR ''.'' # e"
  using assms by (simp add: extensionOf_def substring_def lastIndexOf_last)

subsection \<open>The sample runs, evaluated\<close>

lemmas ext_defs = extensionOf_def substring_def lastIndexOf_def sampleToLowerCase_def
  lowerUnit_def cu_def js_Cons

lemma sample_supported:
  "isSupportedFile sampleRuntime (js ''a.ts'')" "isSupportedFile sampleRuntime (js ''b.ts'')"
  "isSupportedFile sampleRuntime (js ''c.ts'')" "isSupportedFile sampleRuntime (js ''d.ts'')"
  "\<not> isSupportedFile sampleRuntime (js ''yarn.lock'')"
  "\<not> isSupportedFile sampleRuntime (js ''logo.png'')"
  by (simp_all add: isSupportedFile_def ext_defs SUPPORTED_EXTENSIONS_def)

lemma sample_ignored:
  "\<not> shouldIgnoreFile (js ''a.ts'')" "\<not> shouldIgnoreFile (js ''b.ts'')"
  "\<not> shouldIgnoreFile (js ''c.ts'')" "\<not> shouldIgnoreFile (js ''d.ts'')"
  "\<not> shouldIgnoreFile (js ''yarn.lock'')" "\<not> shouldIgnoreFile (js ''logo.png'')"
  by (simp_all add: shouldIgnoreFile_def IGNORED_PATTERNS_def js_Cons)

lemma blobItem_sel [simp]:
  "path (blobItem p n) = p" "type (blobItem p n) = Blob" "sizeOrZero (blobItem p n) = n"
  by (simp_all add: blobItem_def sizeOrZero_def)

lemma flaky_relevant:
  "relevantItems sampleRuntime flakyTree =
     [blobItem (js ''a.ts'') 3, blobItem (js ''b.ts'') 4, blobItem (js ''c.ts'') 3,
      blobItem (js ''d.ts'') 3]"
  by (simp add: flakyTree_def relevantItems_def allBlobs_def sample_supported sample_ignored
        MAX_FILE_SIZE_BYTES_def)

lemma flaky_limited:
  "limitedItems sampleRuntime flakyTree =
     [blobItem (js ''a.ts'') 3, blobItem (js ''b.ts'') 4, blobItem (js ''c.ts'') 3,
      blobItem (js ''d.ts'') 3]"
  by (simp add: limitedItems_def flaky_relevant slice_def MAX_FILES_def)

lemma flaky_fails:
  "\<not> failsAllAttempts flakyContent (blobItem (js ''a.ts'') 3)"
  "failsAllAttempts flakyContent (blobItem (js ''b.ts'') 4)"
  "\<not> failsAllAttempts flakyContent (blobItem (js ''c.ts'') 3)"
  "\<not> failsAllAttempts flakyContent (blobItem (js ''d.ts'') 3)"
  by (simp_all add: failsAllAttempts_iff flakyContent_def)

lemma sample_language:
  "detectLanguage sampleRuntime (js ''a.ts'') = Some (LanguageName (js ''typescript''))"
  "detectLanguage sampleRuntime (js ''c.ts'') = Some (LanguageName (js ''typescript''))"
  "detectLanguage sampleRuntime (js ''d.ts'') = Some (LanguageName (js ''typescript''))"
  by (simp_all add: detectLanguage_def languageMap_def ext_defs)

lemma flaky_fetch:
  "fst (fetchFileWithRetry sampleRuntime flakyContent (blobItem (js ''a.ts'') 3))
     = Some (tsFile (js ''a.ts''))"
  "fst (fetchFileWithRetry sampleRuntime flakyContent (blobItem (js ''b.ts'') 4)) = None"
  "fst (fetchFileWithRetry sampleRuntime flakyContent (blobItem (js ''c.ts'') 3))
     = Some (tsFile (js ''c.ts''))"
  "fst (fetchFileWithRetry sampleRuntime flakyContent (blobItem (js ''d.ts'') 3))
     = Some (tsFile (js ''d.ts''))"
  by (simp_all add: fetchFileWithRetry_unfold flakyContent_def tsFile_def sample_language)

lemma flaky_nonempty: "flakyTree \<noteq> []"
  by (simp add: flakyTree_def)

lemma sample_parse: "parseRepoString (js ''o/r'') = Some (js ''o'', js ''r'')"
  by (simp add: parseRepoString_def removeTrailingSlash_def js_Cons)

lemma sample_resolve:
  "repoRes net = Some (okResponse, publicRepo) \<Longrightarrow>
     resolveRef net owner repo [] None = Inr (js ''main'')"
  by (simp add: resolveRef_def okResponse_def ok_def publicRepo_def truthy_def)

lemma ok_okResponse: "ok okResponse"
  by (simp add: okResponse_def ok_def)

lemma summary_3_1:
  "makeSummary (Suc (Suc (Suc 0))) (js ''main'') (Suc 0) False
     = js ''Imported 3 files from main (1 failed). ''"
  by (simp add: makeSummary_def skippedNote_def showNat.simps digitChar_def js_Cons)

lemma flaky_run:
  "fetchGithubRepo sampleRuntime flakyNet (js ''o/r'') [] None = Inr flakyResult"
  by (simp add: fetchGithubRepo_def sample_parse resolveRef_def fetchTree_def flakyNet_def
       okResponse_def ok_def publicRepo_def truthy_def importTree_def flaky_limited
       flaky_relevant flaky_nonempty downloadAll_files downloadAll_failed flaky_fails
       flaky_fetch flakyResult_def summary_3_1)

lemma more_supported:
  "isSupportedFile sampleRuntime (js ''e.ts'')" "isSupportedFile sampleRuntime (js ''f.ts'')"
  "isSupportedFile sampleRuntime (js ''g.ts'')" "isSupportedFile sampleRuntime (js ''h.ts'')"
  "isSupportedFile sampleRuntime (js ''i.ts'')" "isSupportedFile sampleRuntime (js ''j.ts'')"
  by (simp_all add: isSupportedFile_def ext_defs SUPPORTED_EXTENSIONS_def)

lemma more_ignored:
  "\<not> shouldIgnoreFile (js ''e.ts'')" "\<not> shouldIgnoreFile (js ''f.ts'')"
  "\<not> shouldIgnoreFile (js ''g.ts'')" "\<not> shouldIgnoreFile (js ''h.ts'')"
  "\<not> shouldIgnoreFile (js ''i.ts'')" "\<not> shouldIgnoreFile (js ''j.ts'')"
  by (simp_all add: shouldIgnoreFile_def IGNORED_PATTERNS_def js_Cons)

lemma ten_limited: "limitedItems sampleRuntime tenTree = tenTree"
  by (simp add: limitedItems_def slice_def relevantItems_def allBlobs_def tenTree_def
        sample_supported sample_ignored more_supported more_ignored MAX_FILE_SIZE_BYTES_def
        MAX_FILES_def)

lemma ten_failed:
  "filter (failsAllAttempts tenContent) tenTree
     = [blobItem (js ''c.ts'') 3, blobItem (js ''g.ts'') 3]"
  by (simp add: tenTree_def failsAllAttempts_iff tenContent_def)


lemma summary_1_0:
  "makeSummary (Suc 0) (js ''main'') 0 True
     = js ''Imported 1 files from main. (Some files skipped due to size/limits)''"
  by (simp add: makeSummary_def skippedNote_def showNat.simps digitChar_def js_Cons)

lemma apiTruncated_run:
  "fetchGithubRepo sampleRuntime apiTruncatedNet (js ''o/r'') [] None = Inr apiTruncatedResult"
  by (simp add: fetchGithubRepo_def sample_parse sample_resolve fetchTree_def apiTruncatedNet_def
        ok_okResponse importTree_def limitedItems_def slice_def relevantItems_def allBlobs_def
        sample_supported sample_ignored MAX_FILE_SIZE_BYTES_def MAX_FILES_def
        downloadAll_files downloadAll_failed failsAllAttempts_iff fetchFileWithRetry_unfold
        apiTruncatedResult_def tsFile_def sample_language summary_1_0)

subsection \<open>Generated source files\<close>

lemma digitChar_in: "d < 10 \<Longrightarrow> digitChar d \<in> set (js ''0123456789'')"
  unfolding digitChar_def by (rule nth_mem) simp

lemma set_showNat: "set (showNat n) \<subseteq> set (js ''0123456789'')"
proof (induction n rule: showNat.induct)
  case (1 n)
  show ?case
  proof (cases "n < 10")
    case True
    then show ?thesis using digitChar_in[of n] by (subst showNat.simps) simp
  next
    case False
    then have "set (showNat (n div 10)) \<subseteq> set (js ''0123456789'')" by (rule 1)
    moreover have "digitChar (n mod 10) \<in> set (js ''0123456789'')" by (rule digitChar_in) simp
    ultimately show ?thesis using False by (subst showNat.simps) simp
  qed
qed

lemma contains_set: "contains s lit \<Longrightarrow> set lit \<subseteq> set s"
proof (induction s)
  case Nil
  then show ?case by simp
next
  case (Cons c cs)
  from Cons.prems have "prefix lit (c # cs) \<or> contains cs lit" by simp
  then show ?case
  proof
    assume "prefix lit (c # cs)"
    then show ?thesis by (rule set_mono_prefix)
  next
    assume "contains cs lit"
    then have "set lit \<subseteq> set cs" by (rule Cons.IH)
    then show ?thesis by auto
  qed
qed

lemma not_contains: "c \<in> set lit \<Longrightarrow> c \<notin> set s \<Longrightarrow> \<not> contains s lit"
  using contains_set by blast

lemma sourcePath_chars:
  "cu CHR ''n'' \<notin> set (js ''f'' @ showNat k @ js ''.ts'')"
  "cu CHR ''e'' \<notin> set (js ''f'' @ showNat k @ js ''.ts'')"
  using set_showNat[of k] by (auto simp: js_Cons)

lemma sourcePath_not_ignored: "\<not> shouldIgnoreFile (js ''f'' @ showNat k @ js ''.ts'')"
proof -
  let ?p = "js ''f'' @ showNat k @ js ''.ts''"
  have "\<not> contains ?p (js ''node_modules'')"
    by (rule not_contains[of "cu CHR ''n''"]) (simp add: js_Cons, rule sourcePath_chars)
  moreover have "\<not> contains ?p (js ''.env'')"
    by (rule not_contains[of "cu CHR ''e''"]) (simp add: js_Cons, rule sourcePath_chars)
  moreover have "\<not> contains ?p (js ''.env.production'')"
    by (rule not_contains[of "cu CHR ''e''"]) (simp add: js_Cons, rule sourcePath_chars)
  moreover have "\<not> contains ?p (js ''.env.development'')"
    by (rule not_contains[of "cu CHR ''e''"]) (simp add: js_Cons, rule sourcePath_chars)
  moreover have "\<not> test (AtEnd (js ''.log'')) ?p" "\<not> test (AtEnd (js ''.tmp'')) ?p"
    "\<not> test (AtEnd (js ''.cache'')) ?p"
    by (simp_all add: js_Cons)
  moreover have "\<not> prefix (js ''node_modules/'') ?p" "\<not> prefix (js ''.git/'') ?p"
    "\<not> prefix (js ''.vscode/'') ?p" "\<not> prefix (js ''target/'') ?p"
    "\<not> prefix (js ''build/'') ?p" "\<not> prefix (js ''dist/'') ?p"
    "\<not> prefix (js ''.next/'') ?p" "\<not> prefix (js ''.nuxt/'') ?p"
    by (simp_all add: js_Cons)
  ultimately show ?thesis
    by (simp only: shouldIgnoreFile_def IGNORED_PATTERNS_def list_ex_Cons_iff list_ex_Nil_iff
          test.simps simp_thms)
qed

lemma lowerUnit_digits: "\<forall>u\<in>set (js ''0123456789''). lowerUnit u = [u]"
  by (simp add: js_Cons cu_def lowerUnit_def)

lemma sourcePath_lower:
  "toLowerCase sampleRuntime (js ''f'' @ showNat k @ js ''.ts'') = js ''f'' @ showNat k @ js ''.ts''"
proof -
  have "\<forall>u\<in>set (showNat k). lowerUnit u = [u]"
    using set_showNat[of k] lowerUnit_digits by blast
  moreover have "\<forall>u\<in>set (js ''f''). lowerUnit u = [u]" "\<forall>u\<in>set (js ''.ts''). lowerUnit u = [u]"
    by (simp_all add: js_Cons cu_def lowerUnit_def)
  ultimately have "\<forall>u\<in>set (js ''f'' @ showNat k @ js ''.ts''). lowerUnit u = [u]"
    by auto
  then show ?thesis
    by (simp only: sample_toLowerCase sampleToLowerCase_fixed)
qed

lemma sourcePath_supported: "isSupportedFile sampleRuntime (js ''f'' @ showNat k @ js ''.ts'')"
proof -
  let ?s = "js ''f'' @ showNat k"
  have p: "js ''f'' @ showNat k @ js ''.ts'' = ?s @ cu CHR ''.'' # js ''ts''"
    by (simp add: js_Cons)
  have "extensionOf sampleRuntime (?s @ cu CHR ''.'' # js ''ts'') = cu CHR ''.'' # js ''ts''"
  proof (rule extensionOf_fixed)
    show "toLowerCase sampleRuntime (?s @ cu CHR ''.'' # js ''ts'') = ?s @ cu CHR ''.'' # js ''ts''"
      using sourcePath_lower[of k] unfolding p .
    show "cu CHR ''.'' \<notin> set (js ''ts'')"
      by (simp add: js_Cons)
  qed
  then show ?thesis
    unfolding p by (simp add: isSupportedFile_def SUPPORTED_EXTENSIONS_def js_Cons)
qed

lemma sourceItem_kept:
  "type (sourceItem k n) = Blob" "\<not> shouldIgnoreFile (path (sourceItem k n))"
  "isSupportedFile sampleRuntime (path (sourceItem k n))" "sizeOrZero (sourceItem k n) = n"
  using sourcePath_supported[of k] sourcePath_not_ignored[of k]
  by (simp_all add: sourceItem_def sizeOrZero_def)

lemma sourceItem_relevant:
  "n < MAX_FILE_SIZE_BYTES \<Longrightarrow>
     relevantItems sampleRuntime (map (\<lambda>k. sourceItem k n) ks) = map (\<lambda>k. sourceItem k n) ks"
  by (induction ks) (simp_all add: relevantItems_def allBlobs_def sourceItem_kept)

lemma relevantItems_append:
  "relevantItems rt (xs @ ys) = relevantItems rt xs @ relevantItems rt ys"
  by (simp add: relevantItems_def allBlobs_def)

subsection \<open>A run of fetchGithubRepo past the byte budget\<close>

lemma heavy_length: "length heavyTree = 105"
  by (simp add: heavyTree_def)

lemma heavy_limited: "limitedItems sampleRuntime heavyTree = heavyTree"
proof -
  have "relevantItems sampleRuntime heavyTree = heavyTree"
    unfolding heavyTree_def by (rule sourceItem_relevant) (simp add: MAX_FILE_SIZE_BYTES_def)
  then show ?thesis
    by (simp add: limitedItems_def slice_def heavy_length MAX_FILES_def)
qed

lemma heavy_relevant: "relevantItems sampleRuntime heavyTree = heavyTree"
  unfolding heavyTree_def by (rule sourceItem_relevant) (simp add: MAX_FILE_SIZE_BYTES_def)

lemma heavy_sizes:
  "map file_size (List.map_filter
       (\<lambda>item. fst (fetchFileWithRetry rt (\<lambda>p attempt. Some bigContent) item)) items)
     = replicate (length items) 1048575"
  by (induction items)
     (simp_all add: fetchFileWithRetry_unfold bigContent_def)

lemma heavy_never_fails: "\<not> failsAllAttempts (\<lambda>p attempt. Some bigContent) item"
  by (simp add: failsAllAttempts_iff)

lemma heavy_run:
  "fetchGithubRepo sampleRuntime heavyNet (js ''o/r'') [] None
     = importTree sampleRuntime (\<lambda>p attempt. Some bigContent) (js ''main'') False heavyTree"
proof -
  have t: "treeRes heavyNet = Some (okResponse, \<lparr>tree_truncated = False, tree = Some heavyTree\<rparr>)"
    and r: "repoRes heavyNet = Some (okResponse, publicRepo)"
    by (simp_all add: heavyNet_def)
  have tr: "tree \<lparr>tree_truncated = False, tree = Some heavyTree\<rparr> = Some heavyTree"
    by simp
  have ne: "limitedItems sampleRuntime heavyTree \<noteq> []"
    unfolding heavy_limited using heavy_length by auto
  show ?thesis
    using fetchGithubRepo_run[OF sample_parse sample_resolve[OF r] t ok_okResponse tr ne]
    by (simp add: heavyNet_def)
qed

lemma heavy_result:
  "importTree sampleRuntime (\<lambda>p attempt. Some bigContent) (js ''main'') False heavyTree = Inr r
     \<Longrightarrow> \<not> truncated r \<and> length (files r) = 105
         \<and> sum_list (map file_size (files r)) = 110100375"
proof -
  assume imp: "importTree sampleRuntime (\<lambda>p attempt. Some bigContent) (js ''main'') False heavyTree
                 = Inr r"
  let ?fetch = "\<lambda>item. fst (fetchFileWithRetry sampleRuntime (\<lambda>p attempt. Some bigContent) item)"
  have f: "files r = List.map_filter ?fetch heavyTree"
    using importTree_Inr(2)[OF imp] by (simp add: heavy_limited downloadAll_files)
  have sizes: "map file_size (files r) = replicate 105 1048575"
    unfolding f using heavy_sizes[of sampleRuntime heavyTree] by (simp add: heavy_length)
  have "\<not> truncated r"
    using importTree_Inr(3)[OF imp]
    by (simp add: heavy_limited heavy_relevant downloadAll_failed heavy_never_fails)
  moreover have "length (files r) = 105"
    using sizes by (metis length_map length_replicate)
  moreover have "sum_list (map file_size (files r)) = 110100375"
    unfolding sizes by (simp add: sum_list_replicate)
  ultimately show ?thesis by simp
qed

lemma heavy_bytes:
  "bytesOfFirst sampleRuntime (\<lambda>p attempt. Some bigContent) heavyTree 102 = 106954650"
  unfolding bytesOfFirst_def heavy_sizes
  by (simp add: heavy_length sum_list_replicate)

lemma heavy_exhausted:
  "budgetExhaustedEarly sampleRuntime (\<lambda>p attempt. Some bigContent) heavyTree"
  unfolding budgetExhaustedEarly_def list_ex_iff
proof (rule bexI[of _ 102])
  show "MAX_TOTAL_SIZE_BYTES
          \<le> bytesOfFirst sampleRuntime (\<lambda>p attempt. Some bigContent) heavyTree 102"
    unfolding heavy_bytes by (simp add: MAX_TOTAL_SIZE_BYTES_def MAX_TOTAL_SIZE_MB_def)
  show "102 \<in> set [0..<length heavyTree]"
    by (simp add: heavy_length)
qed

lemma flaky_within_budget:
  "\<not> budgetExhaustedEarly sampleRuntime flakyContent (limitedItems sampleRuntime flakyTree)"
proof -
  have bound: "bytesOfFirst sampleRuntime flakyContent (limitedItems sampleRuntime flakyTree) i \<le> 9"
    for i
  proof -
    have "take i (limitedItems sampleRuntime flakyTree)
            \<in> set (prefixes (limitedItems sampleRuntime flakyTree))"
      by (simp add: take_is_prefix)
    then show ?thesis
      unfolding bytesOfFirst_def flaky_limited
      by (auto simp: flaky_fetch tsFile_def)
  qed
  have "bytesOfFirst sampleRuntime flakyContent (limitedItems sampleRuntime flakyTree) i
          < MAX_TOTAL_SIZE_BYTES" for i
    using bound[of i] by (simp add: MAX_TOTAL_SIZE_BYTES_def MAX_TOTAL_SIZE_MB_def)
  then show ?thesis
    by (simp add: budgetExhaustedEarly_def list_ex_iff not_le)
qed

subsection \<open>The listing that shows the steps of the filter\<close>

lemma dotted_extension:
  "textAfterLastDot dottedCapitalPath = Some (js ''ts'')"
  "toLowerCase sampleRuntime (js ''ts'') = js ''ts''"
  "lastIndexOf dottedCapitalPath (cu CHR ''.'') = 1"
  "toLowerCase sampleRuntime dottedCapitalPath = 105 # 775 # js ''.ts''"
  "extensionOf sampleRuntime dottedCapitalPath = 775 # js ''.ts''"
  by (simp_all add: textAfterLastDot_def dottedCapitalPath_def ext_defs)

lemma dotted_supported:
  "hasSupportedExtension sampleRuntime dottedCapitalPath"
  "\<not> isSupportedFile sampleRuntime dottedCapitalPath"
  by (simp_all add: hasSupportedExtension_def isSupportedFile_def dotted_extension(1,5)
        SUPPORTED_EXTENSIONS_def sampleToLowerCase_def lowerUnit_def js_Cons cu_def)

lemma dotted_not_ignored: "\<not> shouldIgnoreFile dottedCapitalPath"
  by (simp add: shouldIgnoreFile_def IGNORED_PATTERNS_def dottedCapitalPath_def js_Cons cu_def)

lemma planner_ignored:
  "shouldIgnoreFile (js ''node_modules/x.ts'')" "\<not> shouldIgnoreFile (js ''Main.JAVA'')"
  "\<not> shouldIgnoreFile (js ''big.ts'')" "\<not> shouldIgnoreFile (js ''c.py'')"
  by (simp_all add: shouldIgnoreFile_def IGNORED_PATTERNS_def js_Cons)

lemma planner_supported:
  "isSupportedFile sampleRuntime (js ''Main.JAVA'')" "isSupportedFile sampleRuntime (js ''big.ts'')"
  "isSupportedFile sampleRuntime (js ''c.py'')"
  by (simp_all add: isSupportedFile_def ext_defs SUPPORTED_EXTENSIONS_def)

lemma planner_extension:
  "hasSupportedExtension sampleRuntime (js ''a.ts'')"
  "hasSupportedExtension sampleRuntime (js ''Main.JAVA'')"
  "hasSupportedExtension sampleRuntime (js ''big.ts'')"
  "hasSupportedExtension sampleRuntime (js ''c.py'')"
  by (simp_all add: hasSupportedExtension_def textAfterLastDot_def ext_defs
        SUPPORTED_EXTENSIONS_def)

lemma planner_relevant:
  "relevantItems sampleRuntime plannerTree =
     [blobItem (js ''a.ts'') 3, blobItem (js ''Main.JAVA'') 3,
      \<lparr>path = js ''c.py'', mode = js ''100644'', type = Blob, sha = js ''0'',
       item_size = None, url = js ''c.py''\<rparr>]"
  by (simp add: plannerTree_def relevantItems_def allBlobs_def sample_supported sample_ignored
        dotted_supported dotted_not_ignored planner_ignored planner_supported sizeOrZero_def
        blobItem_def MAX_FILE_SIZE_BYTES_def)

lemma planner_kept:
  "filter (keptByPlanner sampleRuntime) plannerTree =
     [blobItem dottedCapitalPath 3, blobItem (js ''a.ts'') 3, blobItem (js ''Main.JAVA'') 3,
      \<lparr>path = js ''c.py'', mode = js ''100644'', type = Blob, sha = js ''0'',
       item_size = None, url = js ''c.py''\<rparr>]"
  by (simp add: plannerTree_def keptByPlanner_def sample_ignored dotted_supported
        dotted_not_ignored planner_ignored planner_extension sizeAtOrAboveCap_def blobItem_def
        MAX_FILE_SIZE_BYTES_def)

subsection \<open>The claims about the download pipeline\<close>

text \<open>
  C2 (as amended). For every run of \<open>fetchGithubRepo\<close> that returns a result: the
  \<open>truncated\<close> flag is true if the API marked the recursive listing truncated, or the
  filtered listing had more than \<open>MAX_FILES\<close> entries, or at least one candidate failed all
  its attempts; and it is true only if one of these holds or the byte budget was used up
  before all candidates were fetched. In particular an API-truncated listing always gives
  \<open>truncated = true\<close>. What the flag is when only the byte budget was used up is left open.
\<close>

theorem truncated_if_limit_or_failure_only_if_also_budget:
  assumes "fetchGithubRepo rt net repoString branch token = Inr r"
    and "treeRes net = Some (res, treeData)" and "tree treeData = Some entries"
  shows "(tree_truncated treeData
            \<or> MAX_FILES < length (relevantItems rt entries)
            \<or> (\<exists>item\<in>set (limitedItems rt entries). failsAllAttempts (getFileContent net) item)
          \<longrightarrow> truncated r)
       \<and> (truncated r \<longrightarrow>
            tree_truncated treeData
            \<or> MAX_FILES < length (relevantItems rt entries)
            \<or> (\<exists>item\<in>set (limitedItems rt entries). failsAllAttempts (getFileContent net) item)
            \<or> budgetExhaustedEarly rt (getFileContent net) (limitedItems rt entries))
       \<and> (tree_truncated treeData \<longrightarrow> truncated r)"
proof -
  from fetchGithubRepo_Inr[OF assms(1-3)] obtain targetRef where
    imp: "importTree rt (getFileContent net) targetRef (tree_truncated treeData) entries = Inr r" ..
  have "truncated r \<longleftrightarrow>
           tree_truncated treeData
         \<or> MAX_FILES < length (relevantItems rt entries)
         \<or> (\<exists>item\<in>set (limitedItems rt entries). failsAllAttempts (getFileContent net) item)"
    using importTree_Inr(3)[OF imp] by (simp only: failed_pos_iff limited_shorter_iff)
  then show ?thesis by blast
qed

theorem truncated_if_limit_or_failure_only_if_also_budget_witness:
  "fetchGithubRepo sampleRuntime apiTruncatedNet (js ''o/r'') [] None = Inr apiTruncatedResult
   \<and> treeRes apiTruncatedNet
       = Some (okResponse, \<lparr>tree_truncated = True, tree = Some [blobItem (js ''a.ts'') 3]\<rparr>)
   \<and> truncated apiTruncatedResult
   \<and> \<not> MAX_FILES < length (relevantItems sampleRuntime [blobItem (js ''a.ts'') 3])"
proof -
  have t: "treeRes apiTruncatedNet
       = Some (okResponse, \<lparr>tree_truncated = True, tree = Some [blobItem (js ''a.ts'') 3]\<rparr>)"
    by (simp add: apiTruncatedNet_def)
  have tr: "tree \<lparr>tree_truncated = True, tree = Some [blobItem (js ''a.ts'') 3]\<rparr>
              = Some [blobItem (js ''a.ts'') 3]"
    by simp
  have "truncated apiTruncatedResult"
    using truncated_if_limit_or_failure_only_if_also_budget[OF apiTruncated_run t tr] by simp
  moreover have "\<not> MAX_FILES < length (relevantItems sampleRuntime [blobItem (js ''a.ts'') 3])"
    by (simp add: relevantItems_def allBlobs_def MAX_FILES_def)
  ultimately show ?thesis using apiTruncated_run t by simp
qed

text \<open>
  C2 as stated fails in both directions. In the first run the listing is not truncated by
  the API, has four candidates, and the byte budget is never reached, yet the result is
  marked truncated, because \<open>b.ts\<close> failed. In the second run 105 files of 1048575 bytes
  are listed: when the 34th batch is done 102 files are fetched, 106954650 bytes, more than
  the budget of 104857600, and a batch of three candidates is still to come;
  \<open>fetchGithubRepo\<close> fetches it as well and returns all 105 files, not marked truncated.
\<close>

theorem truncated_by_failure_alone_and_not_by_budget:
  "fetchGithubRepo sampleRuntime flakyNet (js ''o/r'') [] None = Inr flakyResult
   \<and> truncated flakyResult
   \<and> treeRes flakyNet = Some (okResponse, \<lparr>tree_truncated = False, tree = Some flakyTree\<rparr>)
   \<and> \<not> MAX_FILES < length (relevantItems sampleRuntime flakyTree)
   \<and> \<not> budgetExhaustedEarly sampleRuntime (getFileContent flakyNet)
         (limitedItems sampleRuntime flakyTree)
   \<and> (case fetchGithubRepo sampleRuntime heavyNet (js ''o/r'') [] None of
        Inl e \<Rightarrow> False
      | Inr r \<Rightarrow> \<not> truncated r \<and> length (files r) = 105
                \<and> sum_list (map file_size (files r)) = 110100375)
   \<and> treeRes heavyNet = Some (okResponse, \<lparr>tree_truncated = False, tree = Some heavyTree\<rparr>)
   \<and> length (limitedItems sampleRuntime heavyTree) = 105
   \<and> 102 mod BATCH_SIZE = 0
   \<and> bytesOfFirst sampleRuntime (getFileContent heavyNet) (limitedItems sampleRuntime heavyTree) 102
       = 106954650
   \<and> MAX_TOTAL_SIZE_BYTES = 104857600
   \<and> budgetExhaustedEarly sampleRuntime (getFileContent heavyNet)
       (limitedItems sampleRuntime heavyTree)"
proof -
  have g: "getFileContent flakyNet = flakyContent"
    and h: "getFileContent heavyNet = (\<lambda>p attempt. Some bigContent)"
    by (simp_all add: flakyNet_def heavyNet_def)
  have "truncated flakyResult"
    by (simp add: flakyResult_def)
  moreover have "treeRes flakyNet
      = Some (okResponse, \<lparr>tree_truncated = False, tree = Some flakyTree\<rparr>)"
    by (simp add: flakyNet_def)
  moreover have "\<not> MAX_FILES < length (relevantItems sampleRuntime flakyTree)"
    by (simp add: flaky_relevant MAX_FILES_def)
  moreover have "\<not> budgetExhaustedEarly sampleRuntime (getFileContent flakyNet)
         (limitedItems sampleRuntime flakyTree)"
    unfolding g by (rule flaky_within_budget)
  moreover have "case fetchGithubRepo sampleRuntime heavyNet (js ''o/r'') [] None of
        Inl e \<Rightarrow> False
      | Inr r \<Rightarrow> \<not> truncated r \<and> length (files r) = 105
                \<and> sum_list (map file_size (files r)) = 110100375"
  proof (cases "importTree sampleRuntime (\<lambda>p attempt. Some bigContent) (js ''main'') False heavyTree")
    case (Inl e)
    have "heavyTree \<noteq> []"
      using heavy_length by auto
    with Inl show ?thesis
      by (simp add: importTree_def heavy_limited Let_def)
  next
    case (Inr r)
    then show ?thesis
      unfolding heavy_run using heavy_result[OF Inr] by simp
  qed
  moreover have "treeRes heavyNet
      = Some (okResponse, \<lparr>tree_truncated = False, tree = Some heavyTree\<rparr>)"
    by (simp add: heavyNet_def)
  moreover have "length (limitedItems sampleRuntime heavyTree) = 105"
    by (simp add: heavy_limited heavy_length)
  moreover have "102 mod BATCH_SIZE = 0"
    by (simp add: BATCH_SIZE_def)
  moreover have "bytesOfFirst sampleRuntime (getFileContent heavyNet)
      (limitedItems sampleRuntime heavyTree) 102 = 106954650"
    unfolding h heavy_limited by (rule heavy_bytes)
  moreover have "MAX_TOTAL_SIZE_BYTES = 104857600"
    by (simp add: MAX_TOTAL_SIZE_BYTES_def MAX_TOTAL_SIZE_MB_def)
  moreover have "budgetExhaustedEarly sampleRuntime (getFileContent heavyNet)
       (limitedItems sampleRuntime heavyTree)"
    unfolding h heavy_limited by (rule heavy_exhausted)
  ultimately show ?thesis
    using flaky_run by blast
qed

text \<open>
  C3. A candidate is tried three times, with waits of 1000 ms and 2000 ms between the
  attempts; when all three attempts fail the item is counted in \<open>failedCount\<close> and left out
  of the files, and the run still returns: with \<open>n\<close> candidates of which \<open>k\<close> fail all
  attempts the result has \<open>n - k\<close> files, \<open>failedCount\<close> is \<open>k\<close>, and the summary says
  ``\<open>k\<close> failed'' when \<open>k > 0\<close>.
\<close>

theorem failed_items_counted_not_raised:
  assumes "parseRepoString repoString = Some (owner, repo)"
    and "resolveRef net owner repo branch token = Inr targetRef"
    and "treeRes net = Some (res, treeData)" and "ok res"
    and "tree treeData = Some entries"
    and "limitedItems rt entries \<noteq> []"
  shows "\<exists>r. fetchGithubRepo rt net repoString branch token = Inr r
      \<and> length (files r)
          = length (limitedItems rt entries)
            - length (filter (failsAllAttempts (getFileContent net)) (limitedItems rt entries))
      \<and> failedCount (downloadAll rt (getFileContent net) (limitedItems rt entries))
          = length (filter (failsAllAttempts (getFileContent net)) (limitedItems rt entries))
      \<and> (0 < failedCount (downloadAll rt (getFileContent net) (limitedItems rt entries)) \<longrightarrow>
           sublist (showNat (failedCount (downloadAll rt (getFileContent net)
                                            (limitedItems rt entries)))
                      @ js '' failed'') (summary r))
      \<and> (\<forall>item. if failsAllAttempts (getFileContent net) item
                  then fetchFileWithRetry rt (getFileContent net) item = (None, [1000, 2000])
                  else fst (fetchFileWithRetry rt (getFileContent net) item) \<noteq> None
                       \<and> prefix (snd (fetchFileWithRetry rt (getFileContent net) item))
                            [1000, 2000])
      \<and> map file_path (files r)
          = map path (filter (\<lambda>item. \<not> failsAllAttempts (getFileContent net) item)
                        (limitedItems rt entries))"
proof -
  let ?gfc = "getFileContent net"
  let ?items = "limitedItems rt entries"
  let ?st = "downloadAll rt ?gfc ?items"
  let ?isTruncated = "tree_truncated treeData \<or> length ?items < length (relevantItems rt entries)"
  let ?r = "\<lparr>files = dl_files ?st,
             summary = makeSummary (length (dl_files ?st)) targetRef (failedCount ?st) ?isTruncated,
             truncated = (?isTruncated \<or> failedCount ?st > 0)\<rparr>"
  have run: "fetchGithubRepo rt net repoString branch token = Inr ?r"
    using fetchGithubRepo_run[OF assms] assms(6) by (simp add: importTree_def Let_def)
  have len: "length (files ?r) = length ?items - length (filter (failsAllAttempts ?gfc) ?items)"
    using length_map_filter_retry[of rt ?gfc ?items] by (simp add: downloadAll_files)
  have failed: "failedCount ?st = length (filter (failsAllAttempts ?gfc) ?items)"
    by (rule downloadAll_failed)
  have summ: "0 < failedCount ?st \<longrightarrow>
      sublist (showNat (failedCount ?st) @ js '' failed'') (summary ?r)"
  proof
    assume "0 < failedCount ?st"
    then have "summary ?r =
        (js ''Imported '' @ showNat (length (dl_files ?st)) @ js '' files from '' @ targetRef
           @ js '' ('')
        @ (showNat (failedCount ?st) @ js '' failed'')
        @ (js ''). '' @ skippedNote ?isTruncated)"
      by (simp add: makeSummary_def js_Cons)
    then show "sublist (showNat (failedCount ?st) @ js '' failed'') (summary ?r)"
      by (simp only: sublist_appendI)
  qed
  have retry: "\<forall>item. if failsAllAttempts ?gfc item
                  then fetchFileWithRetry rt ?gfc item = (None, [1000, 2000])
                  else fst (fetchFileWithRetry rt ?gfc item) \<noteq> None
                       \<and> prefix (snd (fetchFileWithRetry rt ?gfc item)) [1000, 2000]"
    by (simp add: retry_all_fail retry_none_iff retry_delays)
  have kept: "map file_path (files ?r)
      = map path (filter (\<lambda>item. \<not> failsAllAttempts ?gfc item) ?items)"
    by (simp add: downloadAll_files map_filter_retry_paths)
  show ?thesis
    by (rule exI[of _ ?r], intro conjI)
       (fact run, fact len, fact failed, fact summ, fact retry, fact kept)
qed

theorem failed_items_counted_not_raised_witness:
  "\<exists>r. fetchGithubRepo sampleRuntime tenNet (js ''o/r'') [] None = Inr r
      \<and> length (limitedItems sampleRuntime tenTree) = 10
      \<and> length (files r) = 8
      \<and> failedCount (downloadAll sampleRuntime tenContent (limitedItems sampleRuntime tenTree)) = 2
      \<and> sublist (js ''2 failed'') (summary r)
      \<and> fetchFileWithRetry sampleRuntime tenContent (blobItem (js ''c.ts'') 3)
          = (None, [1000, 2000])"
proof -
  let ?rt = sampleRuntime
  have t: "treeRes tenNet = Some (okResponse, \<lparr>tree_truncated = False, tree = Some tenTree\<rparr>)"
    and r: "repoRes tenNet = Some (okResponse, publicRepo)"
    and g: "getFileContent tenNet = tenContent"
    by (simp_all add: tenNet_def)
  have ne: "limitedItems ?rt tenTree \<noteq> []"
    unfolding ten_limited by (simp add: tenTree_def)
  have f: "failsAllAttempts tenContent (blobItem (js ''c.ts'') 3)"
    by (simp add: failsAllAttempts_iff tenContent_def)
  have len10: "length tenTree = 10"
    by (simp add: tenTree_def)
  have tr: "tree \<lparr>tree_truncated = False, tree = Some tenTree\<rparr> = Some tenTree"
    by simp
  from failed_items_counted_not_raised[OF sample_parse sample_resolve[OF r] t ok_okResponse tr ne]
  obtain r where
    all: "fetchGithubRepo ?rt tenNet (js ''o/r'') [] None = Inr r
      \<and> length (files r) = length (limitedItems ?rt tenTree)
            - length (filter (failsAllAttempts tenContent) (limitedItems ?rt tenTree))
      \<and> failedCount (downloadAll ?rt tenContent (limitedItems ?rt tenTree))
            = length (filter (failsAllAttempts tenContent) (limitedItems ?rt tenTree))
      \<and> (0 < failedCount (downloadAll ?rt tenContent (limitedItems ?rt tenTree)) \<longrightarrow>
           sublist (showNat (failedCount (downloadAll ?rt tenContent (limitedItems ?rt tenTree)))
                      @ js '' failed'') (summary r))
      \<and> (\<forall>item. if failsAllAttempts tenContent item
                  then fetchFileWithRetry ?rt tenContent item = (None, [1000, 2000])
                  else fst (fetchFileWithRetry ?rt tenContent item) \<noteq> None
                       \<and> prefix (snd (fetchFileWithRetry ?rt tenContent item)) [1000, 2000])
      \<and> map file_path (files r)
          = map path (filter (\<lambda>item. \<not> failsAllAttempts tenContent item)
                        (limitedItems ?rt tenTree))"
    unfolding g ..
  note run = all[THEN conjunct1]
  note len = all[THEN conjunct2, THEN conjunct1]
  note cnt = all[THEN conjunct2, THEN conjunct2, THEN conjunct1]
  note summ = all[THEN conjunct2, THEN conjunct2, THEN conjunct2, THEN conjunct1]
  note retry = all[THEN conjunct2, THEN conjunct2, THEN conjunct2, THEN conjunct2,
      THEN conjunct1, THEN spec, of "blobItem (js ''c.ts'') 3"]
  have c2: "failedCount (downloadAll ?rt tenContent (limitedItems ?rt tenTree)) = 2"
    using cnt by (simp add: ten_limited ten_failed)
  have "length (files r) = 8"
    using len by (simp add: ten_limited ten_failed len10)
  moreover have "sublist (js ''2 failed'') (summary r)"
    using summ unfolding c2 by (simp add: showNat.simps digitChar_def js_Cons)
  moreover have "fetchFileWithRetry ?rt tenContent (blobItem (js ''c.ts'') 3) = (None, [1000, 2000])"
    using retry f by simp
  moreover have "length (limitedItems ?rt tenTree) = 10"
    by (simp add: ten_limited len10)
  ultimately show ?thesis
    using run c2 by blast
qed

text \<open>
  C4. The claim: the candidates are the entries of the listing that are not of kind tree,
  match no ignore pattern, have a supported extension (the text after the last dot, without
  regard to case) and report no size at or above the cap. \<open>isSupportedFile\<close> takes the
  index of the last dot in the path as given and cuts the lower-cased path there. For the
  path of the four code units U+0130, dot, \<open>t\<close>, \<open>s\<close> the index is 1 and the lower-cased
  path has five code units, U+0069, U+0307, dot, \<open>t\<close>, \<open>s\<close>; the cut gives U+0307 followed
  by \<open>.ts\<close>, which is no supported extension, and the file is dropped although the text
  after its last dot is \<open>ts\<close>. The other entries of the listing go the way the claim says:
  the directory entry, the file under \<open>node_modules\<close> and the file of the size of the cap
  are dropped, and the file with the extension \<open>JAVA\<close> and the file of no reported size
  are kept.
\<close>

theorem isSupportedFile_cuts_lowered_path_at_index_of_given_path:
  "textAfterLastDot dottedCapitalPath = Some (js ''ts'')
   \<and> toLowerCase sampleRuntime (js ''ts'') = js ''ts''
   \<and> js ''.ts'' \<in> set SUPPORTED_EXTENSIONS
   \<and> hasSupportedExtension sampleRuntime dottedCapitalPath
   \<and> lastIndexOf dottedCapitalPath (cu CHR ''.'') = 1
   \<and> toLowerCase sampleRuntime dottedCapitalPath = 105 # 775 # js ''.ts''
   \<and> extensionOf sampleRuntime dottedCapitalPath = 775 # js ''.ts''
   \<and> \<not> isSupportedFile sampleRuntime dottedCapitalPath
   \<and> filter (keptByPlanner sampleRuntime) plannerTree =
       [blobItem dottedCapitalPath 3, blobItem (js ''a.ts'') 3, blobItem (js ''Main.JAVA'') 3,
        \<lparr>path = js ''c.py'', mode = js ''100644'', type = Blob, sha = js ''0'',
         item_size = None, url = js ''c.py''\<rparr>]
   \<and> limitedItems sampleRuntime plannerTree =
       [blobItem (js ''a.ts'') 3, blobItem (js ''Main.JAVA'') 3,
        \<lparr>path = js ''c.py'', mode = js ''100644'', type = Blob, sha = js ''0'',
         item_size = None, url = js ''c.py''\<rparr>]"
proof -
  have "js ''.ts'' \<in> set SUPPORTED_EXTENSIONS"
    by (simp add: SUPPORTED_EXTENSIONS_def)
  moreover have "limitedItems sampleRuntime plannerTree =
       [blobItem (js ''a.ts'') 3, blobItem (js ''Main.JAVA'') 3,
        \<lparr>path = js ''c.py'', mode = js ''100644'', type = Blob, sha = js ''0'',
         item_size = None, url = js ''c.py''\<rparr>]"
    by (simp add: limitedItems_def slice_def planner_relevant MAX_FILES_def)
  ultimately show ?thesis
    using dotted_extension dotted_supported planner_kept by blast
qed



text \<open>
  C7. A tree request answered with 409 fails with the repository-empty error, and so does
  an accepted response whose tree has no entries: the run does not return a result.
\<close>

theorem empty_tree_is_RepositoryEmpty:
  assumes "parseRepoString repoString = Some (owner, repo)"
    and "resolveRef net owner repo branch token = Inr targetRef"
    and "treeRes net = Some (res, treeData)"
  shows "(status res = 409 \<longrightarrow>
            fetchGithubRepo rt net repoString branch token = Inl RepositoryEmpty_409)
       \<and> (ok res \<and> (tree treeData = None \<or> tree treeData = Some []) \<longrightarrow>
            fetchGithubRepo rt net repoString branch token
              = Inl (RepositoryEmpty_no_entries owner repo))"
  using assms by (auto simp: fetchGithubRepo_def fetchTree_def ok_def)

theorem empty_tree_is_RepositoryEmpty_witness:
  "fetchGithubRepo sampleRuntime emptyTreeNet (js ''o/r'') [] None
     = Inl (RepositoryEmpty_no_entries (js ''o'') (js ''r''))
   \<and> fetchGithubRepo sampleRuntime conflictNet (js ''o/r'') [] None = Inl RepositoryEmpty_409"
proof -
  have t1: "treeRes emptyTreeNet = Some (okResponse, \<lparr>tree_truncated = False, tree = Some []\<rparr>)"
    and r1: "repoRes emptyTreeNet = Some (okResponse, publicRepo)"
    by (simp_all add: emptyTreeNet_def)
  have t2: "treeRes conflictNet = Some (conflictResponse, \<lparr>tree_truncated = False, tree = None\<rparr>)"
    and r2: "repoRes conflictNet = Some (okResponse, publicRepo)"
    by (simp_all add: conflictNet_def)
  show ?thesis
    using empty_tree_is_RepositoryEmpty[OF sample_parse sample_resolve[OF r1] t1, of sampleRuntime]
      empty_tree_is_RepositoryEmpty[OF sample_parse sample_resolve[OF r2] t2, of sampleRuntime]
    by (simp add: ok_okResponse conflictResponse_def)
qed

text \<open>
  C8. The files of a result are the candidates whose download succeeded, in the order of
  the candidate list: batches are merged one after the other, each in the order of its items.
\<close>

theorem result_keeps_candidate_order:
  assumes "fetchGithubRepo rt net repoString branch token = Inr r"
    and "treeRes net = Some (res, treeData)" and "tree treeData = Some entries"
  shows "files r = List.map_filter (\<lambda>item. fst (fetchFileWithRetry rt (getFileContent net) item))
                     (limitedItems rt entries)
    \<and> map file_path (files r)
        = map path (filter (\<lambda>item. \<not> failsAllAttempts (getFileContent net) item)
                      (limitedItems rt entries))
    \<and> subseq (map file_path (files r)) (map path (limitedItems rt entries))"
proof -
  from fetchGithubRepo_Inr[OF assms] obtain targetRef where
    imp: "importTree rt (getFileContent net) targetRef (tree_truncated treeData) entries = Inr r" ..
  have f: "files r = List.map_filter (\<lambda>item. fst (fetchFileWithRetry rt (getFileContent net) item))
                       (limitedItems rt entries)"
    using importTree_Inr(2)[OF imp] by (simp add: downloadAll_files)
  have p: "map file_path (files r)
             = map path (filter (\<lambda>item. \<not> failsAllAttempts (getFileContent net) item)
                           (limitedItems rt entries))"
    by (simp add: f map_filter_retry_paths)
  have "subseq (map file_path (files r)) (map path (limitedItems rt entries))"
    unfolding p by (intro subseq_map subseq_filter_left)
  with f p show ?thesis by simp
qed

theorem result_keeps_candidate_order_witness:
  "fetchGithubRepo sampleRuntime flakyNet (js ''o/r'') [] None = Inr flakyResult
   \<and> map path (limitedItems sampleRuntime flakyTree)
       = [js ''a.ts'', js ''b.ts'', js ''c.ts'', js ''d.ts'']
   \<and> map file_path (files flakyResult) = [js ''a.ts'', js ''c.ts'', js ''d.ts'']
   \<and> subseq (map file_path (files flakyResult)) (map path (limitedItems sampleRuntime flakyTree))"
proof -
  have t: "treeRes flakyNet = Some (okResponse, \<lparr>tree_truncated = False, tree = Some flakyTree\<rparr>)"
    and g: "getFileContent flakyNet = flakyContent"
    by (simp_all add: flakyNet_def)
  have tr: "tree \<lparr>tree_truncated = False, tree = Some flakyTree\<rparr> = Some flakyTree"
    by simp
  show ?thesis
    using result_keeps_candidate_order[OF flaky_run t tr] flaky_run
    by (simp add: g flaky_limited flaky_fails flaky_fetch tsFile_def)
qed

text \<open>
  C10. For every run that returns a result, if at least one candidate failed all its
  attempts then \<open>failedCount\<close> is positive and the result is marked truncated, whatever the
  limits.
\<close>

theorem failed_item_forces_truncated:
  assumes "fetchGithubRepo rt net repoString branch token = Inr r"
    and "treeRes net = Some (res, treeData)" and "tree treeData = Some entries"
    and "\<exists>item\<in>set (limitedItems rt entries). failsAllAttempts (getFileContent net) item"
  shows "0 < failedCount (downloadAll rt (getFileContent net) (limitedItems rt entries))
       \<and> truncated r"
proof -
  from fetchGithubRepo_Inr[OF assms(1-3)] obtain targetRef where
    imp: "importTree rt (getFileContent net) targetRef (tree_truncated treeData) entries = Inr r" ..
  have "0 < failedCount (downloadAll rt (getFileContent net) (limitedItems rt entries))"
    using assms(4) by (simp only: failed_pos_iff)
  then show ?thesis using importTree_Inr(3)[OF imp] by simp
qed

theorem failed_item_forces_truncated_witness:
  "fetchGithubRepo sampleRuntime flakyNet (js ''o/r'') [] None = Inr flakyResult
   \<and> failsAllAttempts flakyContent (blobItem (js ''b.ts'') 4)
   \<and> \<not> MAX_FILES < length (relevantItems sampleRuntime flakyTree)
   \<and> 0 < failedCount (downloadAll sampleRuntime flakyContent (limitedItems sampleRuntime flakyTree))
   \<and> truncated flakyResult"
proof -
  have t: "treeRes flakyNet = Some (okResponse, \<lparr>tree_truncated = False, tree = Some flakyTree\<rparr>)"
    and g: "getFileContent flakyNet = flakyContent"
    by (simp_all add: flakyNet_def)
  have tr: "tree \<lparr>tree_truncated = False, tree = Some flakyTree\<rparr> = Some flakyTree"
    by simp
  have e: "\<exists>item\<in>set (limitedItems sampleRuntime flakyTree).
             failsAllAttempts (getFileContent flakyNet) item"
    by (simp add: g flaky_limited flaky_fails)
  show ?thesis
    using failed_item_forces_truncated[OF flaky_run t tr e] flaky_run
    by (simp add: g flaky_fails flaky_relevant MAX_FILES_def)
qed

subsection \<open>The byte budget of analyzeGitHubRepo\<close>

lemma overshoot_relevant: "relevantItems sampleRuntime overshootTree = overshootTree"
proof -
  have "relevantItems sampleRuntime overshootBig = overshootBig"
    unfolding overshootBig_def by (rule sourceItem_relevant) (simp add: MAX_FILE_SIZE_BYTES_def)
  moreover have "relevantItems sampleRuntime overshootSmall = overshootSmall"
    unfolding overshootSmall_def by (rule sourceItem_relevant) (simp add: MAX_FILE_SIZE_BYTES_def)
  ultimately show ?thesis
    by (simp add: overshootTree_def relevantItems_append)
qed

lemma overshoot_lengths:
  "length overshootBig = 100" "length overshootSmall = 5" "length overshootTree = 105"
  by (simp_all add: overshootTree_def overshootBig_def overshootSmall_def)

lemma overshoot_blobs:
  "\<forall>x\<in>set overshootBig. \<exists>c. blobContent overshootNet x = Some c \<and> length c = 1048575"
  "\<forall>x\<in>set overshootSmall. \<exists>c. blobContent overshootNet x = Some c \<and> length c = 60"
  by (auto simp: overshootNet_def overshootBig_def overshootSmall_def sourceItem_def
        bigContent_def smallContent_def)


lemma commit_batch_uniform:
  assumes "\<forall>x\<in>set batch. \<exists>c. blob x = Some c \<and> length c = n"
    and "t + n \<le> MAX_TOTAL_SIZE_BYTES" and "t < MAX_TOTAL_SIZE_BYTES"
  shows "totalSize (foldl commit st (map (fetchWithinBudget rt blob t) batch))
           = totalSize st + length batch * n
       \<and> map file_size (an_files (foldl commit st (map (fetchWithinBudget rt blob t) batch)))
           = map file_size (an_files st) @ replicate (length batch) n"
  using assms
proof (induction batch arbitrary: st)
  case Nil
  then show ?case by simp
next
  case (Cons x xs)
  from Cons.prems obtain c where c: "blob x = Some c" "length c = n" by auto
  let ?f = "\<lparr>file_path = path x, content = c, language = detectLanguage rt (path x),
             file_size = length c\<rparr>"
  have fx: "fetchWithinBudget rt blob t x = Some ?f"
    using c Cons.prems(2,3) by (simp add: fetchWithinBudget_def)
  let ?st = "commit st (Some ?f)"
  have st: "totalSize ?st = totalSize st + n"
    "map file_size (an_files ?st) = map file_size (an_files st) @ [n]"
    using c by (simp_all add: commit_def)
  have "totalSize (foldl commit ?st (map (fetchWithinBudget rt blob t) xs))
           = totalSize ?st + length xs * n
       \<and> map file_size (an_files (foldl commit ?st (map (fetchWithinBudget rt blob t) xs)))
           = map file_size (an_files ?st) @ replicate (length xs) n"
    using Cons.prems by (intro Cons.IH) auto
  then show ?case
    by (simp add: fx st replicate_append_same)
qed

lemma slice_left: "i + n \<le> length xs \<Longrightarrow> slice (xs @ ys) i (i + n) = take n (drop i xs)"
  by (simp add: slice_def)

lemma slice_right: "slice (xs @ ys) (length xs) (length xs + length ys) = ys"
  by (simp add: slice_def)

lemma overshoot_last_batch:
  assumes "totalSize st = 104857500"
    and "map file_size (an_files st) = replicate 100 1048575"
  shows "totalSize (analyzeBatches sampleRuntime (blobContent overshootNet) overshootTree 100 st) = 104857800
       \<and> map file_size (an_files (analyzeBatches sampleRuntime (blobContent overshootNet) overshootTree 100 st))
           = replicate 100 1048575 @ replicate 5 60"
proof -
  let ?blob = "blobContent overshootNet"
  let ?st = "foldl commit st (map (fetchWithinBudget sampleRuntime ?blob (totalSize st)) overshootSmall)"
  have batch: "slice overshootTree 100 (100 + BATCH_SIZE_analyze) = overshootSmall"
    using slice_right[of overshootBig overshootSmall]
    by (simp add: overshootTree_def overshoot_lengths BATCH_SIZE_analyze_def)
  have below: "\<not> MAX_TOTAL_SIZE_BYTES \<le> totalSize st"
    using assms(1) by (simp add: MAX_TOTAL_SIZE_BYTES_def MAX_TOTAL_SIZE_MB_def)
  have step: "analyzeBatches sampleRuntime ?blob overshootTree 100 st
                = analyzeBatches sampleRuntime ?blob overshootTree (100 + BATCH_SIZE_analyze) ?st"
    using below by (subst analyzeBatches.simps) (simp add: overshoot_lengths batch Let_def)
  have stop: "analyzeBatches sampleRuntime ?blob overshootTree (100 + BATCH_SIZE_analyze) ?st = ?st"
    by (subst analyzeBatches.simps) (simp add: overshoot_lengths BATCH_SIZE_analyze_def)
  have "totalSize ?st = totalSize st + length overshootSmall * 60
       \<and> map file_size (an_files ?st)
           = map file_size (an_files st) @ replicate (length overshootSmall) 60"
    using overshoot_blobs(2) assms(1)
    by (intro commit_batch_uniform)
       (simp_all add: MAX_TOTAL_SIZE_BYTES_def MAX_TOTAL_SIZE_MB_def)
  then show ?thesis
    unfolding step stop using assms by (simp add: overshoot_lengths)
qed

lemma overshoot_big_batches:
  assumes "j \<le> 20"
    and "totalSize st = 5 * j * 1048575"
    and "map file_size (an_files st) = replicate (5 * j) 1048575"
  shows "totalSize (analyzeBatches sampleRuntime (blobContent overshootNet) overshootTree (5 * j) st) = 104857800
       \<and> map file_size (an_files (analyzeBatches sampleRuntime (blobContent overshootNet) overshootTree (5 * j) st))
           = replicate 100 1048575 @ replicate 5 60"
  using assms
proof (induction k \<equiv> "20 - j" arbitrary: j st)
  case 0
  then have j: "j = 20" by simp
  show ?case
    using overshoot_last_batch[of st] "0.prems" by (simp add: j)
next
  case (Suc k)
  then have j: "j < 20" by simp
  let ?blob = "blobContent overshootNet"
  let ?batch = "take 5 (drop (5 * j) overshootBig)"
  let ?st = "foldl commit st (map (fetchWithinBudget sampleRuntime ?blob (totalSize st)) ?batch)"
  have batch: "slice overshootTree (5 * j) (5 * j + BATCH_SIZE_analyze) = ?batch"
    using j slice_left[of "5 * j" 5 overshootBig overshootSmall]
    by (simp add: overshootTree_def overshoot_lengths BATCH_SIZE_analyze_def)
  have len: "length ?batch = 5"
    using j by (simp add: overshoot_lengths)
  have sub: "\<forall>x\<in>set ?batch. \<exists>c. ?blob x = Some c \<and> length c = 1048575"
    using overshoot_blobs(1) by (meson in_set_dropD in_set_takeD)
  have tot: "totalSize st \<le> 95 * 1048575"
    using j Suc.prems(2) by simp
  have below: "\<not> MAX_TOTAL_SIZE_BYTES \<le> totalSize st"
    using tot by (simp add: MAX_TOTAL_SIZE_BYTES_def MAX_TOTAL_SIZE_MB_def)
  have idx: "5 * j + BATCH_SIZE_analyze = 5 * Suc j"
    by (simp add: BATCH_SIZE_analyze_def)
  have "analyzeBatches sampleRuntime ?blob overshootTree (5 * j) st
                = analyzeBatches sampleRuntime ?blob overshootTree (5 * j + BATCH_SIZE_analyze) ?st"
    using below j
    by (subst analyzeBatches.simps) (simp add: overshoot_lengths batch Let_def)
  then have step: "analyzeBatches sampleRuntime ?blob overshootTree (5 * j) st
                = analyzeBatches sampleRuntime ?blob overshootTree (5 * Suc j) ?st"
    unfolding idx .
  have "totalSize ?st = totalSize st + length ?batch * 1048575
       \<and> map file_size (an_files ?st)
           = map file_size (an_files st) @ replicate (length ?batch) 1048575"
    using sub tot
    by (intro commit_batch_uniform)
       (simp_all add: MAX_TOTAL_SIZE_BYTES_def MAX_TOTAL_SIZE_MB_def)
  then have st: "totalSize ?st = 5 * Suc j * 1048575"
    "map file_size (an_files ?st) = replicate (5 * Suc j) 1048575"
    unfolding len using Suc.prems(2,3) by (simp_all flip: replicate_add)
  have "k = 20 - Suc j" using Suc.hyps(2) by simp
  moreover have "Suc j \<le> 20" using j by simp
  ultimately show ?case
    unfolding step using st by (intro Suc.hyps(1))
qed

lemma overshoot_analysis:
  "analyzeGitHubRepo sampleRuntime overshootNet (js ''o'') (js ''r'') (js ''main'') 1000
     = Inr \<lparr>ca_files = an_files (analyzeBatches sampleRuntime (blobContent overshootNet) overshootTree 0
                \<lparr>an_files = [], totalSize = 0, supportedFiles = 0, an_downloadedCount = 0\<rparr>),
            ca_totalSize = totalSize (analyzeBatches sampleRuntime (blobContent overshootNet) overshootTree 0
                \<lparr>an_files = [], totalSize = 0, supportedFiles = 0, an_downloadedCount = 0\<rparr>),
            ca_supportedFiles = supportedFiles (analyzeBatches sampleRuntime (blobContent overshootNet) overshootTree 0
                \<lparr>an_files = [], totalSize = 0, supportedFiles = 0, an_downloadedCount = 0\<rparr>),
            ca_ignoredFiles = []\<rparr>"
proof -
  have ref: "analysisRef overshootNet = Inr (js ''main'')"
    by (simp add: analysisRef_def overshootNet_def publicRepo_def defaultBranchOrMain_def)
  have tr: "analysis_treeRes overshootNet
              = Some (okResponse, \<lparr>tree_truncated = False, tree = Some overshootTree\<rparr>)"
    by (simp add: overshootNet_def)
  have lim: "sliceTo (relevantItems sampleRuntime overshootTree) (min 1000 (int MAX_FILES)) = overshootTree"
    by (simp add: overshoot_relevant sliceTo_def MAX_FILES_def overshoot_lengths)
  have ne: "overshootTree \<noteq> []"
    using overshoot_lengths(3) by auto
  show ?thesis
    by (simp add: analyzeGitHubRepo_def ref tr ok_okResponse lim ne Let_def)
qed

text \<open>
  C1. The claim: the sizes of the files of a result add up to at most
  \<open>MAX_TOTAL_SIZE_BYTES\<close>. \<open>analyzeGitHubRepo\<close> checks every file of a batch against the
  total committed before the batch and then commits all of them. In the run below one
  hundred files of 1048575 bytes are committed in twenty batches, which leaves 100 bytes of
  budget; each of the five files of the last batch has 60 bytes and passes the check, and the
  result holds 104857800 bytes, more than the budget of 104857600.
\<close>

theorem analyzeGitHubRepo_commits_over_budget:
  "(case analyzeGitHubRepo sampleRuntime overshootNet (js ''o'') (js ''r'') (js ''main'') 1000 of
      Inl e \<Rightarrow> False
    | Inr a \<Rightarrow> map file_size (ca_files a) = replicate 100 1048575 @ replicate 5 60
            \<and> sum_list (map file_size (ca_files a)) = 104857800
            \<and> ca_totalSize a = 104857800
            \<and> MAX_TOTAL_SIZE_BYTES = 104857600)"
proof -
  let ?st0 = "\<lparr>an_files = [], totalSize = 0, supportedFiles = 0, an_downloadedCount = 0\<rparr>"
  have "totalSize (analyzeBatches sampleRuntime (blobContent overshootNet) overshootTree (5 * 0) ?st0) = 104857800
       \<and> map file_size (an_files (analyzeBatches sampleRuntime (blobContent overshootNet) overshootTree (5 * 0) ?st0))
           = replicate 100 1048575 @ replicate 5 60"
    by (rule overshoot_big_batches) simp_all
  then show ?thesis
    by (simp add: overshoot_analysis sum_list_replicate MAX_TOTAL_SIZE_BYTES_def MAX_TOTAL_SIZE_MB_def)
qed

subsection \<open>Sorting with a comparator\<close>

lemma set_insertOrdered [simp]: "set (insertOrdered c x ys) = insert x (set ys)"
  by (induction ys) auto

lemma set_sortArray [simp]: "set (sortArray c xs) = set xs"
  by (induction xs) (simp_all add: sortArray_def)

lemma sortArray_Nil [simp]: "sortArray c [] = []"
  by (simp add: sortArray_def)

lemma sortArray_Cons: "sortArray c (x # xs) = insertOrdered c x (sortArray c xs)"
  by (simp add: sortArray_def)

lemma distinct_insertOrdered [simp]:
  "distinct (insertOrdered c x ys) \<longleftrightarrow> x \<notin> set ys \<and> distinct ys"
  by (induction ys) auto

lemma distinct_sortArray [simp]: "distinct (sortArray c xs) \<longleftrightarrow> distinct xs"
  by (induction xs) (simp_all add: sortArray_Cons)







subsection \<open>Consistent comparators\<close>










subsection \<open>The comparator of the nodes\<close>





lemma sortNodes_eq: "sortNodes rt nodes = map (sortNode rt) (sortArray (compareNodes rt) nodes)"
  by (subst sortNodes.simps) (simp add: sortNode_def)

lemma isDirectory_sortNode [simp]: "isDirectory (sortNode rt n) = isDirectory n"
  by (cases n) (simp_all add: sortNode_def)

lemma name_sortNode [simp]: "name (sortNode rt n) = name n"
  by (cases n) (simp_all add: sortNode_def)

lemma compareNodes_sortNode [simp]:
  "compareNodes rt (sortNode rt a) (sortNode rt b) = compareNodes rt a b"
  by (simp add: compareNodes_def)



subsection \<open>The file tree: every directory holds a file\<close>

lemma find_Some_split:
  "find P xs = Some x \<Longrightarrow> \<exists>pre post. xs = pre @ x # post \<and> P x \<and> (\<forall>z\<in>set pre. \<not> P z)"
proof (induction xs)
  case Nil
  then show ?case by simp
next
  case (Cons a xs)
  show ?case
  proof (cases "P a")
    case True
    with Cons.prems have "a = x" by simp
    with True show ?thesis by (intro exI[of _ "[]"] exI[of _ xs]) simp
  next
    case False
    with Cons.prems have "find P xs = Some x" by simp
    then obtain pre post where "xs = pre @ x # post" "P x" "\<forall>z\<in>set pre. \<not> P z"
      using Cons.IH by blast
    with False show ?thesis by (intro exI[of _ "a # pre"] exI[of _ post]) simp
  qed
qed

lemma updateFirst_split:
  "(\<forall>z\<in>set pre. \<not> P z) \<Longrightarrow> P x \<Longrightarrow> updateFirst P y (pre @ x # post) = pre @ y # post"
  by (induction pre) simp_all

lemma hasFile_new: "rest \<noteq> [] \<Longrightarrow> \<exists>c\<in>set (insertFile fl seen rest []). hasFile c"
proof (induction rest arbitrary: seen)
  case Nil
  then show ?case by simp
next
  case (Cons part rest)
  show ?case
  proof (cases "rest = []")
    case True
    then show ?thesis by simp
  next
    case False
    then have "\<exists>c\<in>set (insertFile fl (seen @ [part]) rest []). hasFile c"
      by (rule Cons.IH)
    with False show ?thesis by simp
  qed
qed

lemma hasFile_kept:
  "\<exists>c\<in>set level. hasFile c \<Longrightarrow> \<exists>c\<in>set (insertFile fl seen parts level). hasFile c"
proof (induction fl seen parts level rule: insertFile.induct)
  case (1 fl seen level)
  then show ?case by simp
next
  case (2 fl seen part rest level)
  show ?case
  proof (cases "find (\<lambda>node. name node = part) level")
    case None
    with "2.prems" show ?thesis by auto
  next
    case (Some existingNode)
    show ?thesis
    proof (cases "rest \<noteq> [] \<and> isDirectory existingNode")
      case False
      then have "insertFile fl seen (part # rest) level = insertFile fl (seen @ [part]) rest level"
        using Some by auto
      moreover have "\<exists>c\<in>set (insertFile fl (seen @ [part]) rest level). hasFile c"
        using "2.IH"(3)[OF Some False "2.prems"] .
      ultimately show ?thesis by simp
    next
      case True
      from find_Some_split[OF Some] obtain pre post where
        sp: "level = pre @ existingNode # post" "\<forall>z\<in>set pre. name z \<noteq> part" "name existingNode = part"
        by blast
      let ?new = "DirectoryNode (name existingNode) (node_path existingNode)
                 (insertFile fl (seen @ [part]) rest (children existingNode))"
      have res: "insertFile fl seen (part # rest) level = pre @ ?new # post"
        using Some True sp updateFirst_split[of pre "\<lambda>node. name node = part" existingNode ?new post]
        by simp
      from True obtain nm p ch where ex: "existingNode = DirectoryNode nm p ch"
        by (cases existingNode) auto
      from "2.prems" obtain c where c: "c \<in> set level" "hasFile c" by blast
      show ?thesis
      proof (cases "c = existingNode")
        case False
        with c sp(1) have "c \<in> set (pre @ ?new # post)" by auto
        with c(2) show ?thesis unfolding res by blast
      next
        case True
        with c(2) ex have "\<exists>d\<in>set (children existingNode). hasFile d" by simp
        then have "\<exists>d\<in>set (insertFile fl (seen @ [part]) rest (children existingNode)). hasFile d"
          using "2.IH"(2)[OF Some \<open>rest \<noteq> [] \<and> isDirectory existingNode\<close>] by blast
        then have "hasFile ?new" by simp
        then show ?thesis unfolding res by auto
      qed
    qed
  qed
qed

lemma populated_insertFile:
  "\<forall>n\<in>set level. populated n \<Longrightarrow> \<forall>n\<in>set (insertFile fl seen parts level). populated n"
proof (induction fl seen parts level rule: insertFile.induct)
  case (1 fl seen level)
  then show ?case by simp
next
  case (2 fl seen part rest level)
  show ?case
  proof (cases "find (\<lambda>node. name node = part) level")
    case None
    show ?thesis
    proof (cases "rest = []")
      case True
      with None "2.prems" show ?thesis by auto
    next
      case False
      have "\<forall>n\<in>set (insertFile fl (seen @ [part]) rest []). populated n"
        using "2.IH"(1)[OF None False] by simp
      moreover have "\<exists>c\<in>set (insertFile fl (seen @ [part]) rest []). hasFile c"
        using False by (rule hasFile_new)
      ultimately show ?thesis using None False "2.prems" by auto
    qed
  next
    case (Some existingNode)
    show ?thesis
    proof (cases "rest \<noteq> [] \<and> isDirectory existingNode")
      case False
      then have "insertFile fl seen (part # rest) level = insertFile fl (seen @ [part]) rest level"
        using Some by auto
      moreover have "\<forall>n\<in>set (insertFile fl (seen @ [part]) rest level). populated n"
        using "2.IH"(3)[OF Some False "2.prems"] .
      ultimately show ?thesis by simp
    next
      case True
      from find_Some_split[OF Some] obtain pre post where
        sp: "level = pre @ existingNode # post" "\<forall>z\<in>set pre. name z \<noteq> part" "name existingNode = part"
        by blast
      let ?new = "DirectoryNode (name existingNode) (node_path existingNode)
                 (insertFile fl (seen @ [part]) rest (children existingNode))"
      have res: "insertFile fl seen (part # rest) level = pre @ ?new # post"
        using Some True sp updateFirst_split[of pre "\<lambda>node. name node = part" existingNode ?new post]
        by simp
      from True obtain nm p ch where ex: "existingNode = DirectoryNode nm p ch"
        by (cases existingNode) auto
      have pe: "populated existingNode" using "2.prems" sp(1) by simp
      then have "\<forall>n\<in>set (children existingNode). populated n"
        and "\<exists>c\<in>set (children existingNode). hasFile c"
        using ex by auto
      then have "\<forall>n\<in>set (insertFile fl (seen @ [part]) rest (children existingNode)). populated n"
        and "\<exists>c\<in>set (insertFile fl (seen @ [part]) rest (children existingNode)). hasFile c"
        using "2.IH"(2)[OF Some True] hasFile_kept by blast+
      then have "populated ?new" by simp
      then show ?thesis
        unfolding res using "2.prems" sp(1) by auto
    qed
  qed
qed

lemma populated_foldl_addFile:
  "\<forall>n\<in>set root. populated n \<Longrightarrow> \<forall>n\<in>set (foldl addFile root fs). populated n"
proof (induction fs arbitrary: root)
  case Nil
  then show ?case by simp
next
  case (Cons f fs)
  have "\<forall>n\<in>set (addFile root f). populated n"
    unfolding addFile_def using Cons.prems by (rule populated_insertFile)
  then have "\<forall>n\<in>set (foldl addFile (addFile root f) fs). populated n"
    by (rule Cons.IH)
  then show ?case by simp
qed

lemma hasFile_populated_sortNodes:
  "(\<forall>n\<in>set nodes. hasFile (sortNode rt n) = hasFile n)
   \<and> (\<forall>n\<in>set nodes. populated n \<longrightarrow> populated (sortNode rt n))"
proof (induction rt nodes rule: sortNodes.induct)
  case (1 rt nodes)
  have ih: "(\<forall>c\<in>set ch. hasFile (sortNode rt c) = hasFile c)
            \<and> (\<forall>c\<in>set ch. populated c \<longrightarrow> populated (sortNode rt c))"
    if "DirectoryNode nm p ch \<in> set nodes" for nm p ch
    using 1[of "DirectoryNode nm p ch" nm p ch] that by simp
  show ?case
  proof (intro conjI ballI impI)
    fix n assume n: "n \<in> set nodes"
    show "hasFile (sortNode rt n) = hasFile n"
    proof (cases n)
      case (FileNode nm p sz lang supp)
      then show ?thesis by (simp add: sortNode_def)
    next
      case (DirectoryNode nm p ch)
      with n ih have "\<forall>c\<in>set ch. hasFile (sortNode rt c) = hasFile c" by blast
      then show ?thesis using DirectoryNode by (simp add: sortNode_def sortNodes_eq)
    qed
  next
    fix n assume n: "n \<in> set nodes" and pop: "populated n"
    show "populated (sortNode rt n)"
    proof (cases n)
      case (FileNode nm p sz lang supp)
      then show ?thesis by (simp add: sortNode_def)
    next
      case (DirectoryNode nm p ch)
      with n ih have "\<forall>c\<in>set ch. hasFile (sortNode rt c) = hasFile c"
        "\<forall>c\<in>set ch. populated c \<longrightarrow> populated (sortNode rt c)" by blast+
      then show ?thesis using DirectoryNode pop by (auto simp add: sortNode_def sortNodes_eq)
    qed
  qed
qed

lemma populated_sortNodes:
  "\<forall>n\<in>set nodes. populated n \<Longrightarrow> \<forall>n\<in>set (sortNodes rt nodes). populated n"
  using hasFile_populated_sortNodes[of nodes rt] by (auto simp: sortNodes_eq)

lemma hasFile_subnodes: "hasFile n \<longleftrightarrow> (\<exists>f\<in>set (subnodes n). \<not> isDirectory f)"
  by (induction n) auto

lemma populated_subnodes:
  "populated n \<Longrightarrow> d \<in> set (subnodes n) \<Longrightarrow> isDirectory d
     \<Longrightarrow> \<exists>f\<in>set (descendants d). \<not> isDirectory f"
proof (induction n)
  case (FileNode nm p sz lang supp)
  then show ?case by auto
next
  case (DirectoryNode nm p ch)
  show ?case
  proof (cases "d = DirectoryNode nm p ch")
    case True
    from DirectoryNode.prems(1) obtain c where "c \<in> set ch" "hasFile c" by auto
    then show ?thesis using True by (auto simp: hasFile_subnodes)
  next
    case False
    with DirectoryNode.prems(2) obtain c where c: "c \<in> set ch" "d \<in> set (subnodes c)" by auto
    moreover have "populated c" using DirectoryNode.prems(1) c(1) by simp
    ultimately show ?thesis using DirectoryNode.IH DirectoryNode.prems(3) by blast
  qed
qed

subsection \<open>Finding and replacing the first node with a name\<close>







lemma lookup_Nil [simp]: "lookup [] q = None"
  by (cases q) simp_all

declare lookup.simps(2) [simp del]

lemma isDirectory_label [simp]: "isDirectory (label n) = isDirectory n"
  by (cases n) simp_all



subsection \<open>Names stay distinct\<close>



subsection \<open>What a forest holds after a file is added\<close>


subsection \<open>Paths and their parts\<close>





subsection \<open>Adding files in any order\<close>








subsection \<open>The tree is sorted, and sorting it again changes nothing\<close>

lemma orderedBefore_sortNode [simp]:
  "orderedBefore rt (sortNode rt a) (sortNode rt b) = orderedBefore rt a b"
  by (simp add: orderedBefore_def)



subsection \<open>The names of the nodes are parts of the paths\<close>

lemma allNodes_Nil [simp]: "allNodes [] = []"
  by (simp add: allNodes_def)



subsection \<open>Forests that hold the same at every position sort to the same tree\<close>









subsection \<open>Sample trees, evaluated\<close>


lemma sortNode_simps:
  "sortNode rt (FileNode nm p sz lang supp) = FileNode nm p sz lang supp"
  "sortNode rt (DirectoryNode nm p ch) = DirectoryNode nm p (sortNodes rt ch)"
  by (simp_all add: sortNode_def)

lemmas tree_eval = buildFileTree_def addFile_def codeFile_def sortNodes_eq sortNode_simps
  sortArray_Cons compareNodes_def js_Cons


lemma treeFiles_tree:
  "buildFileTree sampleRuntime treeFiles =
     [DirectoryNode (js ''a'') (js ''a'')
        [DirectoryNode (js ''c'') (js ''a/c'')
           [FileNode (js ''d.txt'') (js ''a/c/d.txt'') 1 None True],
         FileNode (js ''b.txt'') (js ''a/b.txt'') 1 None True],
      FileNode (js ''e.txt'') (js ''e.txt'') 1 None True]"
  by (simp add: treeFiles_def tree_eval)










subsection \<open>The claims about the file tree\<close>

text \<open>
  C9. Every directory node of the tree that \<open>buildFileTree\<close> returns has a file node among
  the nodes below it: a directory node is only created on the way to the file node of the
  file being added.
\<close>

theorem directories_have_a_file_below:
  "\<forall>d\<in>set (allNodes (buildFileTree rt fs)).
     isDirectory d \<longrightarrow> (\<exists>f\<in>set (descendants d). \<not> isDirectory f)"
proof (intro ballI impI)
  fix d assume d: "d \<in> set (allNodes (buildFileTree rt fs))" and dir: "isDirectory d"
  have "\<forall>n\<in>set (foldl addFile [] fs). populated n"
    by (rule populated_foldl_addFile) simp
  then have pop: "\<forall>n\<in>set (buildFileTree rt fs). populated n"
    unfolding buildFileTree_def by (rule populated_sortNodes)
  from d obtain n where "n \<in> set (buildFileTree rt fs)" "d \<in> set (subnodes n)"
    by (auto simp: allNodes_def)
  with pop dir show "\<exists>f\<in>set (descendants d). \<not> isDirectory f"
    using populated_subnodes by blast
qed

theorem directories_have_a_file_below_witness:
  "DirectoryNode (js ''c'') (js ''a/c'') [FileNode (js ''d.txt'') (js ''a/c/d.txt'') 1 None True]
     \<in> set (allNodes (buildFileTree sampleRuntime treeFiles))
   \<and> isDirectory
       (DirectoryNode (js ''c'') (js ''a/c'')
          [FileNode (js ''d.txt'') (js ''a/c/d.txt'') 1 None True])
   \<and> (\<exists>f\<in>set (descendants
           (DirectoryNode (js ''c'') (js ''a/c'')
              [FileNode (js ''d.txt'') (js ''a/c/d.txt'') 1 None True])).
        \<not> isDirectory f)"
proof -
  let ?d = "DirectoryNode (js ''c'') (js ''a/c'')
              [FileNode (js ''d.txt'') (js ''a/c/d.txt'') 1 None True]"
  have m: "?d \<in> set (allNodes (buildFileTree sampleRuntime treeFiles))"
    by (simp add: treeFiles_tree allNodes_def)
  have i: "isDirectory ?d" by simp
  from directories_have_a_file_below[of sampleRuntime treeFiles] m i
  have "\<exists>f\<in>set (descendants ?d). \<not> isDirectory f"
    by blast
  with m i show ?thesis by blast
qed




end
